theory Spec2Isabelle
  imports Main
begin

section \<open>JavaScript values, row objects and Maps\<close>

text \<open>
  The values the program handles as keys and fields are strings, \<open>undefined\<close> (a column
  that a row does not have) and \<open>null\<close> (the default branch of \<open>getPrimaryKey\<close>).
  Equality of this datatype is JavaScript's strict equality \<open>===\<close> on such values.
\<close>

datatype jsval = Undefined | Null | Str string

text \<open>
  A row is the object that the CSV parser hands to the \<open>data\<close> callback: an identity
  (\<open>oid\<close>, the object reference; a \<open>Set\<close> compares objects by it) and its properties,
  header name to cell text. Rows are never mutated, so the properties travel with the
  identity.
\<close>

datatype obj = Obj (oid: nat) (props: "(string \<times> string) list")

definition field :: "obj \<Rightarrow> string \<Rightarrow> jsval" where
  "field row name = (case map_of (props row) name of None \<Rightarrow> Undefined | Some v \<Rightarrow> Str v)"

text \<open>\<open>if (v)\<close>: only a non-empty string is truthy among these values.\<close>

fun truthy :: "jsval \<Rightarrow> bool" where
  "truthy (Str s) = (s \<noteq> [])"
| "truthy Undefined = False"
| "truthy Null = False"

text \<open>The conversion to string that a template literal applies to \<open>${v}\<close>.\<close>

fun toString :: "jsval \<Rightarrow> string" where
  "toString (Str s) = s"
| "toString Undefined = ''undefined''"
| "toString Null = ''null''"

text \<open>
  A JavaScript \<open>Map\<close>, as the list of its entries in insertion order. \<open>set\<close> on a key
  that is present replaces the value where the entry stands; on a new key it appends.
\<close>

type_synonym jsmap = "(jsval \<times> obj) list"

primrec Map_set :: "jsval \<Rightarrow> obj \<Rightarrow> jsmap \<Rightarrow> jsmap" where
  "Map_set k v [] = [(k, v)]"
| "Map_set k v (e # es) = (if fst e = k then (k, v) # es else e # Map_set k v es)"

definition Map_get :: "jsmap \<Rightarrow> jsval \<Rightarrow> obj option" where
  "Map_get m k = map_of m k"

definition Map_values :: "jsmap \<Rightarrow> obj list" where
  "Map_values m = map snd m"

definition Map_keys :: "jsmap \<Rightarrow> jsval list" where
  "Map_keys m = map fst m"

text \<open>
  A \<open>Set\<close> of objects, as the list of its members in insertion order; \<open>add\<close> of an object
  that is already a member (the same reference) changes nothing.
\<close>

definition Set_add :: "obj list \<Rightarrow> obj \<Rightarrow> obj list" where
  "Set_add members x = (if oid x \<in> oid ` set members then members else members @ [x])"

section \<open>The record store\<close>

text \<open>\<open>gtfsData\<close> (lines 10 to 16): five Maps, one per entity.\<close>

record store =
  routes :: jsmap
  stops :: jsmap
  trips :: jsmap
  stop_times :: jsmap
  calendar :: jsmap

definition gtfsData0 :: store where
  "gtfsData0 = \<lparr>routes = [], stops = [], trips = [], stop_times = [], calendar = []\<rparr>"

text \<open>The property names of \<open>gtfsData\<close>, and \<open>gtfsData[dataKey]\<close> read and updated.\<close>

datatype dataKey = Routes | Stops | Trips | StopTimes | Calendar

fun coll :: "dataKey \<Rightarrow> store \<Rightarrow> jsmap" where
  "coll Routes s = routes s"
| "coll Stops s = stops s"
| "coll Trips s = trips s"
| "coll StopTimes s = stop_times s"
| "coll Calendar s = calendar s"

fun coll_update :: "dataKey \<Rightarrow> (jsmap \<Rightarrow> jsmap) \<Rightarrow> store \<Rightarrow> store" where
  "coll_update Routes f s = s\<lparr>routes := f (routes s)\<rparr>"
| "coll_update Stops f s = s\<lparr>stops := f (stops s)\<rparr>"
| "coll_update Trips f s = s\<lparr>trips := f (trips s)\<rparr>"
| "coll_update StopTimes f s = s\<lparr>stop_times := f (stop_times s)\<rparr>"
| "coll_update Calendar f s = s\<lparr>calendar := f (calendar s)\<rparr>"

text \<open>\<open>fileMapping\<close> (lines 19 to 25), in the order \<open>Object.entries\<close> walks it.\<close>

definition fileMapping :: "(string \<times> dataKey) list" where
  "fileMapping =
     [(''routes.txt'', Routes), (''stops.txt'', Stops), (''trips.txt'', Trips),
      (''stop_times.txt'', StopTimes), (''calendar.txt'', Calendar)]"

section \<open>Primary keys and the insertion of one row\<close>

text \<open>\<open>getPrimaryKey\<close> (lines 70 to 85).\<close>

definition getPrimaryKey :: "string \<Rightarrow> obj \<Rightarrow> jsval" where
  "getPrimaryKey fileName row =
     (if fileName = ''routes.txt'' then field row ''route_id''
      else if fileName = ''stops.txt'' then field row ''stop_id''
      else if fileName = ''trips.txt'' then field row ''trip_id''
      else if fileName = ''stop_times.txt'' then
        Str (toString (field row ''trip_id'') @ ''_'' @ toString (field row ''stop_sequence''))
      else if fileName = ''calendar.txt'' then field row ''service_id''
      else Null)"

text \<open>The \<open>data\<close> callback (lines 114 to 119), on the store.\<close>

definition onData :: "string \<Rightarrow> dataKey \<Rightarrow> obj \<Rightarrow> store \<Rightarrow> store" where
  "onData fileName dataKey row s =
     (let primaryKey = getPrimaryKey fileName row
      in if truthy primaryKey then coll_update dataKey (Map_set primaryKey row) s else s)"

text \<open>All the \<open>data\<close> events of one stream, in the order the parser emits them.\<close>

definition loadRows :: "string \<Rightarrow> dataKey \<Rightarrow> obj list \<Rightarrow> store \<Rightarrow> store" where
  "loadRows fileName dataKey rows s = fold (onData fileName dataKey) rows s"

section \<open>The queries\<close>

text \<open>
  A response: the status and the JSON body, an array of rows or an error object
  (\<open>error\<close> and, for the stops of a route, \<open>message\<close>).
\<close>

datatype body = Rows "obj list" | Failure string "string option"

datatype response = Response nat body

text \<open>
  The body of the \<open>try\<close> of \<open>GET /api/routes/:routeId/stops\<close> (lines 160 to 175).
  \<open>routeId\<close> is a path parameter, a string. \<open>tripStops\<close> is the array of line 167, with
  \<open>None\<close> where \<open>gtfsData.stops.get\<close> gives \<open>undefined\<close>.
\<close>

definition routeTrips :: "store \<Rightarrow> string \<Rightarrow> obj list" where
  "routeTrips s routeId =
     filter (\<lambda>trip. field trip ''route_id'' = Str routeId) (Map_values (trips s))"

definition tripStops :: "store \<Rightarrow> obj \<Rightarrow> obj option list" where
  "tripStops s trip =
     map (\<lambda>stopTime. Map_get (stops s) (field stopTime ''stop_id''))
       (filter (\<lambda>stopTime. field stopTime ''trip_id'' = field trip ''trip_id'')
          (Map_values (stop_times s)))"

definition addStop :: "obj list \<Rightarrow> obj option \<Rightarrow> obj list" where
  "addStop routeStops stop = (case stop of None \<Rightarrow> routeStops | Some x \<Rightarrow> Set_add routeStops x)"

definition stopsForRoute :: "store \<Rightarrow> string \<Rightarrow> obj list" where
  "stopsForRoute s routeId =
     foldl (\<lambda>routeStops trip. foldl addStop routeStops (tripStops s trip)) [] (routeTrips s routeId)"

text \<open>
  The three handlers. Every value of a Map is a row object, so no property access in a
  \<open>try\<close> body can throw, and the \<open>catch\<close> branches (status 500) are never taken: each
  handler answers with status 200.
\<close>

definition routeStopsHandler :: "store \<Rightarrow> string \<Rightarrow> response" where
  "routeStopsHandler s routeId = Response 200 (Rows (stopsForRoute s routeId))"

definition routesHandler :: "store \<Rightarrow> response" where
  "routesHandler s = Response 200 (Rows (Map_values (routes s)))"

definition stopsHandler :: "store \<Rightarrow> response" where
  "stopsHandler s = Response 200 (Rows (Map_values (stops s)))"

section \<open>The file system, the parser and the console\<close>

text \<open>
  What the program sees of a table file is the stream
  \<open>fs.createReadStream(filePath).pipe(csv())\<close>: the rows of its \<open>data\<close> events in
  order, and then either \<open>end\<close>, an \<open>error\<close> of the read stream, or an \<open>error\<close> of the
  parser (each with its message). A stream that never finishes is outside this model.
\<close>

datatype finish = End | ReadError string | ParseError string

datatype csvfile = File (rows: "obj list") (finish: finish)

text \<open>
  The data directory: missing, there but not listable (\<open>readdirSync\<close> throws with the
  message), or there with its entries by name.
\<close>

datatype directory = Missing | Unreadable string | Present "(string \<times> csvfile) list"

datatype line = Log string | Warn string | Error string

text \<open>
  The world the loader runs in: the directory, what \<open>mkdirSync\<close> and \<open>writeFileSync\<close>
  answer (\<open>None\<close> for success, else the message of the exception), what the stream of a
  file just written with a given text delivers (\<open>csvStream\<close>, the parser being an
  external collaborator), the global \<open>gtfsData\<close> and the console.
\<close>

record world =
  directory :: directory
  mkdirError :: "string option"
  writeError :: "string \<Rightarrow> string option"
  csvStream :: "string \<Rightarrow> csvfile"
  gtfsData :: store
  console :: "line list"

definition say :: "line list \<Rightarrow> world \<Rightarrow> world" where
  "say ls w = w\<lparr>console := console w @ ls\<rparr>"

definition entries :: "world \<Rightarrow> (string \<times> csvfile) list" where
  "entries w = (case directory w of Present es \<Rightarrow> es | _ \<Rightarrow> [])"

text \<open>\<open>fs.existsSync(path.join(gtfsPath, fileName))\<close> and the file found there.\<close>

definition existsSync :: "world \<Rightarrow> string \<Rightarrow> bool" where
  "existsSync w fileName = (fileName \<in> fst ` set (entries w))"

definition readdirSync :: "world \<Rightarrow> string + string list" where
  "readdirSync w =
     (case directory w of
        Missing \<Rightarrow> Inl ''ENOENT: no such file or directory''
      | Unreadable msg \<Rightarrow> Inl msg
      | Present es \<Rightarrow> Inr (map fst es))"

primrec putFile :: "string \<Rightarrow> csvfile \<Rightarrow> (string \<times> csvfile) list \<Rightarrow> (string \<times> csvfile) list" where
  "putFile n f [] = [(n, f)]"
| "putFile n f (e # es) = (if fst e = n then (n, f) # es else e # putFile n f es)"

definition writeFileSync :: "string \<Rightarrow> string \<Rightarrow> world \<Rightarrow> string option \<times> world" where
  "writeFileSync fileName content w =
     (case directory w of
        Present es \<Rightarrow>
          (case writeError w fileName of
             None \<Rightarrow> (None, w\<lparr>directory := Present (putFile fileName (csvStream w content) es)\<rparr>)
           | Some msg \<Rightarrow> (Some msg, w))
      | _ \<Rightarrow> (Some ''ENOENT: no such file or directory'', w))"

section \<open>The loader\<close>

text \<open>
  A function that can throw returns the message of the exception (\<open>Inl\<close>) or its value,
  together with the world it leaves behind.
\<close>

text \<open>\<open>checkGTFSDirectory\<close> (lines 28 to 39).\<close>

definition checkGTFSDirectory :: "string \<Rightarrow> world \<Rightarrow> (string + unit) \<times> world" where
  "checkGTFSDirectory gtfsPath w =
     (if directory w = Missing then
        (let w1 = say [Error (''GTFS directory not found at: '' @ gtfsPath),
                       Log ''Creating GTFS directory...''] w
         in case mkdirError w of
              None \<Rightarrow> (Inr (), say [Log ''GTFS directory created successfully.'']
                                (w1\<lparr>directory := Present []\<rparr>))
            | Some msg \<Rightarrow> (Inl (''Failed to create GTFS directory: '' @ msg), w1))
      else (Inr (), w))"

text \<open>\<open>createSampleGTFSFiles\<close> (lines 42 to 67); \<open>newline\<close> is the \<open>\n\<close> of the texts.\<close>

definition newline :: char where
  "newline = CHR 0x0A"

definition sampleData :: "(string \<times> string) list" where
  "sampleData =
     [(''routes.txt'',
       ''route_id,route_short_name,route_long_name,route_type'' @ [newline] @
       ''1,101,Downtown Express,3''),
      (''stops.txt'',
       ''stop_id,stop_name,stop_lat,stop_lon'' @ [newline] @
       ''1001,Downtown Station,40.712778,-74.006111''),
      (''trips.txt'',
       ''route_id,service_id,trip_id,trip_headsign'' @ [newline] @
       ''1,1,1001,Downtown via Main St''),
      (''stop_times.txt'',
       ''trip_id,arrival_time,departure_time,stop_id,stop_sequence'' @ [newline] @
       ''1001,08:00:00,08:00:00,1001,1''),
      (''calendar.txt'',
       ''service_id,monday,tuesday,wednesday,thursday,friday,saturday,sunday,start_date,end_date''
       @ [newline] @ ''1,1,1,1,1,1,0,0,20240101,20241231'')]"

definition createSample :: "string \<times> string \<Rightarrow> world \<Rightarrow> world" where
  "createSample entry w =
     (let filename = fst entry; content = snd entry
      in if \<not> existsSync w filename then
           (case writeFileSync filename content w of
              (None, w1) \<Rightarrow> say [Log (''Created sample '' @ filename)] w1
            | (Some msg, w1) \<Rightarrow> say [Error (''Failed to create '' @ filename @ '': '' @ msg)] w1)
         else w)"

definition createSampleGTFSFiles :: "world \<Rightarrow> world" where
  "createSampleGTFSFiles w = fold createSample sampleData w"

text \<open>
  The loop over \<open>fileMapping\<close> (lines 98 to 132). \<open>fs.existsSync(filePath)\<close> is false
  exactly when the directory has no entry of that name (\<open>None\<close>); otherwise the entry
  is the stream that \<open>createReadStream\<close> and \<open>csv()\<close> deliver. A rejected promise is
  the exception of the \<open>await\<close>; the inner \<open>catch\<close> logs it and throws it again, which
  leaves the loop. The rows delivered before an error have been inserted by then.
\<close>

definition failed :: "string \<Rightarrow> string \<Rightarrow> world \<Rightarrow> (string + unit) \<times> world" where
  "failed fileName message w =
     (Inl message, say [Error (''Failed to load '' @ fileName @ '': '' @ message)] w)"

fun loadFiles :: "(string \<times> dataKey) list \<Rightarrow> world \<Rightarrow> (string + unit) \<times> world" where
  "loadFiles [] w = (Inr (), w)"
| "loadFiles ((fileName, dataKey) # rest) w =
     (case map_of (entries w) fileName of
        None \<Rightarrow> loadFiles rest (say [Warn (''Missing file: '' @ fileName)] w)
      | Some f \<Rightarrow>
          (let w1 = w\<lparr>gtfsData := loadRows fileName dataKey (rows f) (gtfsData w)\<rparr>
           in case finish f of
                End \<Rightarrow> loadFiles rest (say [Log (''Successfully loaded '' @ fileName)] w1)
              | ReadError msg \<Rightarrow>
                  failed fileName (''Error reading '' @ fileName @ '': '' @ msg) w1
              | ParseError msg \<Rightarrow>
                  failed fileName (''Error parsing '' @ fileName @ '': '' @ msg) w1))"

text \<open>\<open>loadGTFSData\<close> (lines 88 to 136): the outer \<open>catch\<close> wraps every exception.\<close>

definition loadBody :: "string \<Rightarrow> world \<Rightarrow> (string + unit) \<times> world" where
  "loadBody gtfsPath w =
     (case checkGTFSDirectory gtfsPath w of
        (Inl e, w1) \<Rightarrow> (Inl e, w1)
      | (Inr _, w1) \<Rightarrow>
          (case readdirSync w1 of
             Inl e \<Rightarrow> (Inl e, w1)
           | Inr names \<Rightarrow>
               loadFiles fileMapping
                 (if length names = 0 then
                    createSampleGTFSFiles
                      (say [Log ''GTFS directory is empty. Creating sample files...''] w1)
                  else w1)))"

definition loadGTFSData :: "string \<Rightarrow> world \<Rightarrow> (string + unit) \<times> world" where
  "loadGTFSData gtfsPath w =
     (case loadBody gtfsPath w of
        (Inl e, w1) \<Rightarrow> (Inl (''GTFS data loading failed: '' @ e), w1)
      | (Inr u, w1) \<Rightarrow> (Inr u, w1))"

text \<open>
  \<open>initializeServer\<close> (lines 197 to 216). The process ends either with \<open>app.listen\<close>
  called (\<open>Listening\<close>) or with \<open>process.exit(1)\<close> and no call of \<open>app.listen\<close>.
\<close>

datatype process = Listening | Exited nat

definition initializeServer :: "string \<Rightarrow> string \<Rightarrow> world \<Rightarrow> process \<times> world" where
  "initializeServer port gtfsPath w =
     (case loadGTFSData gtfsPath w of
        (Inr _, w1) \<Rightarrow>
          (Listening,
           say [Log (''GTFS API server running on port '' @ port),
                Log (''GTFS data loaded from: '' @ gtfsPath)] w1)
      | (Inl e, w1) \<Rightarrow>
          (Exited 1,
           say [Error (''Server initialization failed: '' @ e),
                Log (newline # ''Troubleshooting tips:''),
                Log (''1. Check if gtfs_data directory exists in: '' @ gtfsPath),
                Log ''2. Verify file permissions'',
                Log ''3. Ensure GTFS files have correct column headers'',
                Log ''4. Check if all required GTFS files are present''] w1))"

text \<open>
  The parser on plain text (no quotes, no carriage returns, no row with more cells than
  there are headers), as \<open>csvStream\<close> of a concrete world. The first line gives the
  header names; every further line is a row, its cells stored under the headers in
  turn, so that under a repeated header the later cell replaces the earlier one; a line
  of no characters has no cells; nothing follows a final newline; and the stream ends.
  Rows are numbered as the parser creates them.
\<close>

fun splitOn :: "char \<Rightarrow> string \<Rightarrow> string list" where
  "splitOn c [] = [[]]"
| "splitOn c (x # xs) =
     (if x = c then [] # splitOn c xs
      else (case splitOn c xs of [] \<Rightarrow> [[x]] | y # ys \<Rightarrow> (x # y) # ys))"

definition textLines :: "string \<Rightarrow> string list" where
  "textLines text =
     (let ls = splitOn newline text in if last ls = [] then butlast ls else ls)"

definition cellsOf :: "string \<Rightarrow> string list" where
  "cellsOf l = (if l = [] then [] else splitOn CHR '','' l)"

primrec setProperty :: "string \<Rightarrow> string \<Rightarrow> (string \<times> string) list \<Rightarrow> (string \<times> string) list" where
  "setProperty h c [] = [(h, c)]"
| "setProperty h c (p # ps) = (if fst p = h then (h, c) # ps else p # setProperty h c ps)"

definition writeRow :: "string list \<Rightarrow> string list \<Rightarrow> (string \<times> string) list" where
  "writeRow headers cells = fold (\<lambda>hc ps. setProperty (fst hc) (snd hc) ps) (zip headers cells) []"

definition plainCsv :: "string \<Rightarrow> csvfile" where
  "plainCsv text =
     (case textLines text of
        [] \<Rightarrow> File [] End
      | header # ls \<Rightarrow>
          File (map (\<lambda>il. Obj (fst il) (writeRow (cellsOf header) (cellsOf (snd il))))
                  (enumerate 0 ls)) End)"

section \<open>Notions the properties are stated with\<close>

text \<open>
  The last row, in input order, from which \<open>fileName\<close>'s rule derives the key \<open>k\<close>, for
  a key that passes the test of the \<open>data\<close> callback; \<open>None\<close> when there is no such row.
\<close>

definition lastDerived :: "string \<Rightarrow> jsval \<Rightarrow> obj list \<Rightarrow> obj option" where
  "lastDerived fileName k table =
     (if truthy k then find (\<lambda>row. getPrimaryKey fileName row = k) (rev table) else None)"

text \<open>
  The stops that the stop times of the trips of a route refer to and that exist, with
  repetitions, in the order the query meets them.
\<close>

definition referencedStops :: "store \<Rightarrow> string \<Rightarrow> obj list" where
  "referencedStops s routeId =
     concat (map (\<lambda>trip. concat (map (\<lambda>stop. case stop of None \<Rightarrow> [] | Some x \<Rightarrow> [x])
                                  (tripStops s trip)))
               (routeTrips s routeId))"

text \<open>A stop time is dangling when its \<open>stop_id\<close> finds no row in the Stop collection.\<close>

definition dangling :: "store \<Rightarrow> obj \<Rightarrow> bool" where
  "dangling s stopTime = (Map_get (stops s) (field stopTime ''stop_id'') = None)"

definition withoutDangling :: "store \<Rightarrow> store" where
  "withoutDangling s = s\<lparr>stop_times := filter (\<lambda>e. \<not> dangling s (snd e)) (stop_times s)\<rparr>"

text \<open>A table file of the directory whose stream does not reach \<open>end\<close>.\<close>

definition failsIn :: "(string \<times> csvfile) list \<Rightarrow> string \<Rightarrow> bool" where
  "failsIn es fileName = (case map_of es fileName of None \<Rightarrow> False | Some f \<Rightarrow> finish f \<noteq> End)"

text \<open>
  The world at the start of the program for a directory with the given entries: the
  Maps of \<open>gtfsData\<close> empty, nothing on the console, no failure of \<open>mkdirSync\<close> or
  \<open>writeFileSync\<close>, and the plain-text parser for the files that the program writes.
\<close>

definition worldWith :: "directory \<Rightarrow> world" where
  "worldWith d =
     \<lparr>directory = d, mkdirError = None, writeError = (\<lambda>_. None), csvStream = plainCsv,
      gtfsData = gtfsData0, console = []\<rparr>"

text \<open>
  A collection is keyed by a column when its keys are pairwise different and every
  entry stands under the value that its row has in this column.
\<close>

definition keyedBy :: "string \<Rightarrow> jsmap \<Rightarrow> bool" where
  "keyedBy name m = (distinct (map fst m) \<and> list_all (\<lambda>e. field (snd e) name = fst e) m)"

text \<open>
  A small feed: two routes, two stops, three trips. Route \<open>R1\<close> has the trips \<open>T1\<close> and
  \<open>T2\<close>; \<open>T1\<close> visits \<open>S1\<close>, \<open>S2\<close> and \<open>S1\<close> again, \<open>T2\<close> visits \<open>S1\<close> and a stop \<open>S9\<close>
  that \<open>stops.txt\<close> does not have. There is no \<open>calendar.txt\<close>.
\<close>

definition exampleFeed :: "(string \<times> csvfile) list" where
  "exampleFeed =
     [(''routes.txt'',
       File [Obj 0 [(''route_id'', ''R1''), (''route_short_name'', ''1'')],
             Obj 1 [(''route_id'', ''R2''), (''route_short_name'', ''2'')]] End),
      (''stops.txt'',
       File [Obj 10 [(''stop_id'', ''S1''), (''stop_name'', ''First'')],
             Obj 11 [(''stop_id'', ''S2''), (''stop_name'', ''Second'')]] End),
      (''trips.txt'',
       File [Obj 20 [(''route_id'', ''R1''), (''service_id'', ''WK''), (''trip_id'', ''T1'')],
             Obj 21 [(''route_id'', ''R1''), (''service_id'', ''WK''), (''trip_id'', ''T2'')],
             Obj 22 [(''route_id'', ''R2''), (''service_id'', ''WK''), (''trip_id'', ''T3'')]] End),
      (''stop_times.txt'',
       File [Obj 30 [(''trip_id'', ''T1''), (''stop_id'', ''S1''), (''stop_sequence'', ''1'')],
             Obj 31 [(''trip_id'', ''T1''), (''stop_id'', ''S2''), (''stop_sequence'', ''2'')],
             Obj 32 [(''trip_id'', ''T1''), (''stop_id'', ''S1''), (''stop_sequence'', ''3'')],
             Obj 33 [(''trip_id'', ''T2''), (''stop_id'', ''S1''), (''stop_sequence'', ''1'')],
             Obj 34 [(''trip_id'', ''T2''), (''stop_id'', ''S9''), (''stop_sequence'', ''2'')],
             Obj 35 [(''trip_id'', ''T3''), (''stop_id'', ''S2''), (''stop_sequence'', ''1'')]] End)]"

definition exampleStore :: store where
  "exampleStore = gtfsData (snd (loadGTFSData ''gtfs_data'' (worldWith (Present exampleFeed))))"

section \<open>Maps and the insertion of rows\<close>

lemma map_of_Map_set: "map_of (Map_set k v m) = (map_of m)(k \<mapsto> v)"
  by (induction m) (auto simp: fun_eq_iff)

lemma keys_Map_set:
  "map fst (Map_set k v m) = (if k \<in> set (map fst m) then map fst m else map fst m @ [k])"
  by (induction m) auto

lemma distinct_Map_set: "distinct (map fst m) \<Longrightarrow> distinct (map fst (Map_set k v m))"
  by (simp add: keys_Map_set)

lemma coll_coll_update: "coll d (coll_update d' f s) = (if d = d' then f (coll d s) else coll d s)"
  by (cases d; cases d') simp_all

lemma coll_onData:
  "coll d (onData fileName d' row s) =
     (if d = d' \<and> truthy (getPrimaryKey fileName row)
      then Map_set (getPrimaryKey fileName row) row (coll d s) else coll d s)"
  by (simp add: onData_def Let_def coll_coll_update)

lemma loadRows_Nil: "loadRows fileName d [] s = s"
  by (simp add: loadRows_def)

lemma loadRows_snoc:
  "loadRows fileName d (table @ [row]) s = onData fileName d row (loadRows fileName d table s)"
  by (simp add: loadRows_def)

lemma loadRows_Cons:
  "loadRows fileName d (row # table) s = loadRows fileName d table (onData fileName d row s)"
  by (simp add: loadRows_def)

lemma coll_loadRows_other: "d \<noteq> d' \<Longrightarrow> coll d (loadRows fileName d' table s) = coll d s"
  by (induction table arbitrary: s) (simp_all add: loadRows_Nil loadRows_Cons coll_onData)

lemma distinct_loadRows:
  "distinct (map fst (coll d s)) \<Longrightarrow> distinct (map fst (coll d (loadRows fileName d' table s)))"
proof (induction table arbitrary: s)
  case Nil
  then show ?case by (simp add: loadRows_Nil)
next
  case (Cons row table)
  have "distinct (map fst (coll d (onData fileName d' row s)))"
    using Cons.prems by (auto simp: coll_onData intro: distinct_Map_set)
  then show ?case
    by (simp add: loadRows_Cons Cons.IH)
qed

lemma lastDerived_snoc:
  "lastDerived fileName k (table @ [row]) =
     (if truthy k \<and> getPrimaryKey fileName row = k then Some row else lastDerived fileName k table)"
  by (simp add: lastDerived_def)

lemma map_of_loadRows:
  "map_of (coll d (loadRows fileName d table s)) k =
     (case lastDerived fileName k table of None \<Rightarrow> map_of (coll d s) k | Some row \<Rightarrow> Some row)"
proof (induction table rule: rev_induct)
  case Nil
  show ?case by (simp add: loadRows_Nil lastDerived_def)
next
  case (snoc row table)
  show ?case
    using snoc.IH
    by (auto simp: loadRows_snoc coll_onData map_of_Map_set lastDerived_snoc)
qed

section \<open>The loader's collections\<close>

text \<open>
  C4. Whatever table the loader processes for an entity, and after each of its rows
  (after the first \<open>n\<close> rows, for every \<open>n\<close>), the keys of the entity's collection are
  pairwise different, and the collection maps a key to the last row so far from which
  this key was derived: last write wins. Rows whose key fails the test of the callback
  store nothing.
\<close>

theorem last_write_wins:
  "distinct (Map_keys (coll dataKey (loadRows fileName dataKey (take n table) gtfsData0))) \<and>
   Map_get (coll dataKey (loadRows fileName dataKey (take n table) gtfsData0)) k =
     lastDerived fileName k (take n table)"
proof -
  have e: "coll dataKey gtfsData0 = []"
    by (cases dataKey) (simp_all add: gtfsData0_def)
  have "distinct (map fst (coll dataKey (loadRows fileName dataKey (take n table) gtfsData0)))"
    by (rule distinct_loadRows) (simp add: e)
  moreover have "map_of (coll dataKey (loadRows fileName dataKey (take n table) gtfsData0)) k =
     lastDerived fileName k (take n table)"
    by (simp add: map_of_loadRows e split: option.splits)
  ultimately show ?thesis
    by (simp add: Map_keys_def Map_get_def)
qed

text \<open>
  A table of routes in which \<open>R1\<close> comes twice: the entry of \<open>R1\<close> keeps its place and
  holds the later row.
\<close>

lemma last_write_wins_example:
  "routes (loadRows ''routes.txt'' Routes
      [Obj 0 [(''route_id'', ''R1''), (''route_long_name'', ''Old'')],
       Obj 1 [(''route_id'', ''R2''), (''route_long_name'', ''Other'')],
       Obj 2 [(''route_id'', ''R1''), (''route_long_name'', ''New'')]] gtfsData0) =
     [(Str ''R1'', Obj 2 [(''route_id'', ''R1''), (''route_long_name'', ''New'')]),
      (Str ''R2'', Obj 1 [(''route_id'', ''R2''), (''route_long_name'', ''Other'')])]"
  by (simp add: getPrimaryKey_def onData_def loadRows_def field_def gtfsData0_def)

text \<open>
  C10. The key of a stop time does not determine the pair of \<open>trip_id\<close> and
  \<open>stop_sequence\<close>: trip \<open>a_1\<close> at sequence \<open>2\<close> and trip \<open>a\<close> at sequence \<open>1_2\<close> both
  derive \<open>a_1_2\<close>, and loading the two rows keeps only the later one, in either order.
\<close>

theorem stop_time_key_collision:
  "(field (Obj 0 [(''trip_id'', ''a_1''), (''stop_sequence'', ''2'')]) ''trip_id'',
    field (Obj 0 [(''trip_id'', ''a_1''), (''stop_sequence'', ''2'')]) ''stop_sequence'') \<noteq>
   (field (Obj 1 [(''trip_id'', ''a''), (''stop_sequence'', ''1_2'')]) ''trip_id'',
    field (Obj 1 [(''trip_id'', ''a''), (''stop_sequence'', ''1_2'')]) ''stop_sequence'') \<and>
   getPrimaryKey ''stop_times.txt'' (Obj 0 [(''trip_id'', ''a_1''), (''stop_sequence'', ''2'')]) =
     Str ''a_1_2'' \<and>
   getPrimaryKey ''stop_times.txt'' (Obj 1 [(''trip_id'', ''a''), (''stop_sequence'', ''1_2'')]) =
     Str ''a_1_2'' \<and>
   stop_times (loadRows ''stop_times.txt'' StopTimes
      [Obj 0 [(''trip_id'', ''a_1''), (''stop_sequence'', ''2'')],
       Obj 1 [(''trip_id'', ''a''), (''stop_sequence'', ''1_2'')]] gtfsData0) =
     [(Str ''a_1_2'', Obj 1 [(''trip_id'', ''a''), (''stop_sequence'', ''1_2'')])] \<and>
   stop_times (loadRows ''stop_times.txt'' StopTimes
      [Obj 1 [(''trip_id'', ''a''), (''stop_sequence'', ''1_2'')],
       Obj 0 [(''trip_id'', ''a_1''), (''stop_sequence'', ''2'')]] gtfsData0) =
     [(Str ''a_1_2'', Obj 0 [(''trip_id'', ''a_1''), (''stop_sequence'', ''2'')])]"
  by (simp add: getPrimaryKey_def onData_def loadRows_def field_def gtfsData0_def)

lemma lastDerived_member:
  "row \<in> set table \<Longrightarrow> truthy (getPrimaryKey fileName row) \<Longrightarrow>
   lastDerived fileName (getPrimaryKey fileName row) table \<noteq> None"
  by (auto simp: lastDerived_def find_None_iff)

lemma key_loaded:
  assumes "row \<in> set table" "truthy (getPrimaryKey fileName row)"
  shows "getPrimaryKey fileName row \<in> set (Map_keys (coll d (loadRows fileName d table s)))"
proof -
  have "map_of (coll d (loadRows fileName d table s)) (getPrimaryKey fileName row) \<noteq> None"
    using lastDerived_member [OF assms] by (auto simp: map_of_loadRows split: option.splits)
  then show ?thesis
    by (simp add: Map_keys_def map_of_eq_None_iff)
qed

lemma stop_time_key:
  "field row ''trip_id'' = Str t \<Longrightarrow> field row ''stop_sequence'' = Str q \<Longrightarrow>
   getPrimaryKey ''stop_times.txt'' row = Str (t @ ''_'' @ q)"
  by (simp add: getPrimaryKey_def)

text \<open>
  C5. For stop-time rows that carry a \<open>trip_id\<close> and a \<open>stop_sequence\<close>, the key is the
  \<open>trip_id\<close>, an underscore and the \<open>stop_sequence\<close>. Two such rows of the same trip,
  loaded one after the other, are both stored when their sequences differ, and only
  the later one is stored when the sequences are equal; in the collection loaded from
  any table that contains both, they account for two entries or for one.
\<close>

theorem stop_time_composite_key:
  assumes "field r1 ''trip_id'' = Str t" and "field r1 ''stop_sequence'' = Str q1"
    and "field r2 ''trip_id'' = Str t" and "field r2 ''stop_sequence'' = Str q2"
    and "r1 \<in> set table" and "r2 \<in> set table"
  shows "getPrimaryKey ''stop_times.txt'' r1 = Str (t @ ''_'' @ q1) \<and>
         getPrimaryKey ''stop_times.txt'' r2 = Str (t @ ''_'' @ q2) \<and>
         Map_values (stop_times (loadRows ''stop_times.txt'' StopTimes [r1, r2] gtfsData0)) =
           (if q1 = q2 then [r2] else [r1, r2]) \<and>
         length (filter (\<lambda>k. k = Str (t @ ''_'' @ q1) \<or> k = Str (t @ ''_'' @ q2))
                   (Map_keys (stop_times (loadRows ''stop_times.txt'' StopTimes table gtfsData0)))) =
           (if q1 = q2 then 1 else 2)"
proof -
  let ?k1 = "Str (t @ ''_'' @ q1)" and ?k2 = "Str (t @ ''_'' @ q2)"
  let ?m = "coll StopTimes (loadRows ''stop_times.txt'' StopTimes table gtfsData0)"
  have k1: "getPrimaryKey ''stop_times.txt'' r1 = ?k1"
    using assms(1,2) by (rule stop_time_key)
  have k2: "getPrimaryKey ''stop_times.txt'' r2 = ?k2"
    using assms(3,4) by (rule stop_time_key)
  have two: "Map_values (stop_times (loadRows ''stop_times.txt'' StopTimes [r1, r2] gtfsData0)) =
           (if q1 = q2 then [r2] else [r1, r2])"
    by (simp add: loadRows_def onData_def k1 k2 gtfsData0_def Map_values_def)
  have d: "distinct (Map_keys ?m)"
    unfolding Map_keys_def by (rule distinct_loadRows) (simp add: gtfsData0_def)
  have m1: "?k1 \<in> set (Map_keys ?m)"
    using key_loaded [OF assms(5), of "''stop_times.txt''" StopTimes gtfsData0] by (simp add: k1)
  have m2: "?k2 \<in> set (Map_keys ?m)"
    using key_loaded [OF assms(6), of "''stop_times.txt''" StopTimes gtfsData0] by (simp add: k2)
  have "{k. k = ?k1 \<or> k = ?k2} \<inter> set (Map_keys ?m) = {?k1, ?k2}"
    using m1 m2 by auto
  then have "length (filter (\<lambda>k. k = ?k1 \<or> k = ?k2) (Map_keys ?m)) = card {?k1, ?k2}"
    using d by (simp add: distinct_length_filter)
  also have "\<dots> = (if q1 = q2 then 1 else 2)"
    by simp
  finally show ?thesis
    using k1 k2 two by simp
qed

theorem stop_time_composite_key_witness:
  "Map_values (stop_times (loadRows ''stop_times.txt'' StopTimes
      [Obj 0 [(''trip_id'', ''T1''), (''stop_id'', ''S1''), (''stop_sequence'', ''1'')],
       Obj 1 [(''trip_id'', ''T1''), (''stop_id'', ''S2''), (''stop_sequence'', ''2'')]] gtfsData0)) =
     [Obj 0 [(''trip_id'', ''T1''), (''stop_id'', ''S1''), (''stop_sequence'', ''1'')],
      Obj 1 [(''trip_id'', ''T1''), (''stop_id'', ''S2''), (''stop_sequence'', ''2'')]] \<and>
   Map_values (stop_times (loadRows ''stop_times.txt'' StopTimes
      [Obj 0 [(''trip_id'', ''T1''), (''stop_id'', ''S1''), (''stop_sequence'', ''1'')],
       Obj 2 [(''trip_id'', ''T1''), (''stop_id'', ''S3''), (''stop_sequence'', ''1'')]] gtfsData0)) =
     [Obj 2 [(''trip_id'', ''T1''), (''stop_id'', ''S3''), (''stop_sequence'', ''1'')]] \<and>
   length (filter (\<lambda>k. k = Str ''T1_1'' \<or> k = Str ''T1_2'')
      (Map_keys (stop_times (loadRows ''stop_times.txt'' StopTimes
        [Obj 0 [(''trip_id'', ''T1''), (''stop_id'', ''S1''), (''stop_sequence'', ''1'')],
         Obj 3 [(''trip_id'', ''T2''), (''stop_id'', ''S1''), (''stop_sequence'', ''1'')],
         Obj 1 [(''trip_id'', ''T1''), (''stop_id'', ''S2''), (''stop_sequence'', ''2'')]]
        gtfsData0)))) = 2"
  using
    stop_time_composite_key [of "Obj 0 [(''trip_id'', ''T1''), (''stop_id'', ''S1''), (''stop_sequence'', ''1'')]"
      "''T1''" "''1''" "Obj 1 [(''trip_id'', ''T1''), (''stop_id'', ''S2''), (''stop_sequence'', ''2'')]" "''2''"
      "[Obj 0 [(''trip_id'', ''T1''), (''stop_id'', ''S1''), (''stop_sequence'', ''1'')],
         Obj 3 [(''trip_id'', ''T2''), (''stop_id'', ''S1''), (''stop_sequence'', ''1'')],
         Obj 1 [(''trip_id'', ''T1''), (''stop_id'', ''S2''), (''stop_sequence'', ''2'')]]"]
    stop_time_composite_key [of "Obj 0 [(''trip_id'', ''T1''), (''stop_id'', ''S1''), (''stop_sequence'', ''1'')]"
      "''T1''" "''1''" "Obj 2 [(''trip_id'', ''T1''), (''stop_id'', ''S3''), (''stop_sequence'', ''1'')]" "''1''"
      "[Obj 0 [(''trip_id'', ''T1''), (''stop_id'', ''S1''), (''stop_sequence'', ''1'')],
        Obj 2 [(''trip_id'', ''T1''), (''stop_id'', ''S3''), (''stop_sequence'', ''1'')]]"]
  by (simp add: field_def)

text \<open>
  For the four entities with a single key column, a row whose key column is absent or
  empty leaves the store as it was.
\<close>

lemma key_missing_dropped:
  assumes "fileName = ''routes.txt'' \<and> name = ''route_id'' \<or>
           fileName = ''stops.txt'' \<and> name = ''stop_id'' \<or>
           fileName = ''trips.txt'' \<and> name = ''trip_id'' \<or>
           fileName = ''calendar.txt'' \<and> name = ''service_id''"
    and "field row name = Undefined \<or> field row name = Str ''''"
  shows "onData fileName dataKey row s = s"
  using assms(1) assms(2) by (elim disjE conjE; simp add: onData_def getPrimaryKey_def)

text \<open>
  C3. The test of the \<open>data\<close> callback never rejects a row of \<open>stop_times.txt\<close>: the
  template literal yields a non-empty string whatever the two columns hold. A row with
  both columns empty is stored under \<open>_\<close> and a row with neither column under
  \<open>undefined_undefined\<close>, while the same defects make \<open>trips.txt\<close> drop its rows.
\<close>

theorem stop_time_without_key_stored:
  "stop_times (gtfsData (snd (loadGTFSData ''gtfs_data''
      (worldWith (Present [(''stop_times.txt'',
         File [Obj 0 [(''trip_id'', ''''), (''arrival_time'', ''08:00:00''),
                      (''stop_id'', ''1001''), (''stop_sequence'', '''')],
               Obj 1 [(''arrival_time'', ''08:05:00''), (''stop_id'', ''1002'')]] End)]))))) =
     [(Str ''_'', Obj 0 [(''trip_id'', ''''), (''arrival_time'', ''08:00:00''),
                         (''stop_id'', ''1001''), (''stop_sequence'', '''')]),
      (Str ''undefined_undefined'', Obj 1 [(''arrival_time'', ''08:05:00''), (''stop_id'', ''1002'')])] \<and>
   trips (gtfsData (snd (loadGTFSData ''gtfs_data''
      (worldWith (Present [(''trips.txt'',
         File [Obj 0 [(''route_id'', ''1''), (''trip_id'', '''')],
               Obj 1 [(''route_id'', ''1'')]] End)]))))) = []"
  by code_simp

section \<open>The world during the load\<close>

lemma say_fields:
  "directory (say ls w) = directory w" "gtfsData (say ls w) = gtfsData w"
  "console (say ls w) = console w @ ls" "entries (say ls w) = entries w"
  "mkdirError (say ls w) = mkdirError w" "writeError (say ls w) = writeError w"
  "csvStream (say ls w) = csvStream w"
  by (simp_all add: say_def entries_def)

lemma entries_gtfsData_update: "entries (w\<lparr>gtfsData := g\<rparr>) = entries w"
  by (simp add: entries_def)

lemma gtfsData_checkGTFSDirectory: "gtfsData (snd (checkGTFSDirectory gtfsPath w)) = gtfsData w"
  by (simp add: checkGTFSDirectory_def Let_def say_fields split: option.splits)

lemma gtfsData_createSample: "gtfsData (createSample entry w) = gtfsData w"
  by (auto simp: createSample_def Let_def writeFileSync_def say_fields
      split: directory.splits option.splits)

lemma gtfsData_createSampleGTFSFiles: "gtfsData (createSampleGTFSFiles w) = gtfsData w"
proof -
  have "gtfsData (fold createSample es w) = gtfsData w" for es
    by (induction es arbitrary: w) (simp_all add: gtfsData_createSample)
  then show ?thesis by (simp add: createSampleGTFSFiles_def)
qed

text \<open>The Stop collection stays keyed by \<open>stop_id\<close> through the whole load.\<close>

lemma keyedBy_Nil: "keyedBy name []"
  by (simp add: keyedBy_def)

lemma set_Map_set: "set (Map_set k v m) \<subseteq> insert (k, v) (set m)"
  by (induction m) auto

lemma keyedBy_Map_set:
  assumes "keyedBy name m" "field row name = k"
  shows "keyedBy name (Map_set k row m)"
proof -
  have "\<forall>e \<in> set (Map_set k row m). field (snd e) name = fst e"
    using assms set_Map_set [of k row m] by (auto simp: keyedBy_def list_all_iff)
  then show ?thesis
    using assms(1) by (simp add: keyedBy_def list_all_iff distinct_Map_set)
qed

lemma stops_onData:
  assumes "(fileName, d) \<in> set fileMapping" "keyedBy ''stop_id'' (stops s)"
  shows "keyedBy ''stop_id'' (stops (onData fileName d row s))"
proof (cases "d = Stops")
  case True
  then have f: "fileName = ''stops.txt''"
    using assms(1) by (auto simp: fileMapping_def)
  have "getPrimaryKey ''stops.txt'' row = field row ''stop_id''"
    by (simp add: getPrimaryKey_def)
  then show ?thesis
    using assms(2) True f coll_onData [of Stops fileName Stops row s]
    by (simp add: keyedBy_Map_set)
next
  case False
  then show ?thesis
    using assms(2) coll_onData [of Stops fileName d row s] by simp
qed

lemma stops_loadRows:
  assumes "(fileName, d) \<in> set fileMapping"
  shows "keyedBy ''stop_id'' (stops s) \<Longrightarrow> keyedBy ''stop_id'' (stops (loadRows fileName d table s))"
  by (induction table arbitrary: s) (simp_all add: loadRows_Nil loadRows_Cons stops_onData [OF assms])

lemma stops_loadFiles:
  "set fm \<subseteq> set fileMapping \<Longrightarrow> keyedBy ''stop_id'' (stops (gtfsData w)) \<Longrightarrow>
   keyedBy ''stop_id'' (stops (gtfsData (snd (loadFiles fm w))))"
proof (induction fm w rule: loadFiles.induct)
  case (1 w)
  then show ?case by simp
next
  case (2 fileName dataKey rest w)
  have m: "(fileName, dataKey) \<in> set fileMapping" and r: "set rest \<subseteq> set fileMapping"
    using "2.prems"(1) by auto
  show ?case
  proof (cases "map_of (entries w) fileName")
    case None
    then show ?thesis
      using "2.IH"(1) [OF None r] "2.prems"(2) by (simp add: say_fields)
  next
    case (Some f)
    let ?w1 = "w\<lparr>gtfsData := loadRows fileName dataKey (rows f) (gtfsData w)\<rparr>"
    have k: "keyedBy ''stop_id'' (stops (gtfsData ?w1))"
      using stops_loadRows [OF m "2.prems"(2)] by simp
    show ?thesis
    proof (cases "finish f")
      case End
      then show ?thesis
        using "2.IH"(2) [OF Some refl End r] k Some by (simp add: say_fields)
    next
      case (ReadError msg)
      then show ?thesis using k Some by (simp add: failed_def say_fields)
    next
      case (ParseError msg)
      then show ?thesis using k Some by (simp add: failed_def say_fields)
    qed
  qed
qed

lemma snd_loadGTFSData: "snd (loadGTFSData gtfsPath w) = snd (loadBody gtfsPath w)"
  by (simp add: loadGTFSData_def split: prod.splits sum.splits)

lemma stops_loadGTFSData:
  assumes "gtfsData w = gtfsData0"
  shows "keyedBy ''stop_id'' (stops (gtfsData (snd (loadGTFSData gtfsPath w))))"
proof -
  have k: "keyedBy ''stop_id'' (stops (gtfsData w'))" if "gtfsData w' = gtfsData w" for w'
    using that assms by (simp add: gtfsData0_def keyedBy_Nil)
  obtain r w1 where c: "checkGTFSDirectory gtfsPath w = (r, w1)"
    by (cases "checkGTFSDirectory gtfsPath w")
  have g1: "gtfsData w1 = gtfsData w"
    using gtfsData_checkGTFSDirectory [of gtfsPath w] c by simp
  have "keyedBy ''stop_id'' (stops (gtfsData (snd (loadBody gtfsPath w))))"
  proof (cases r)
    case (Inl e)
    then show ?thesis using c k [OF g1] by (simp add: loadBody_def)
  next
    case (Inr u)
    show ?thesis
    proof (cases "readdirSync w1")
      case (Inl e)
      then show ?thesis using c Inr k [OF g1] by (simp add: loadBody_def)
    next
      case names: (Inr names)
      let ?w2 = "if length names = 0 then createSampleGTFSFiles
                  (say [Log ''GTFS directory is empty. Creating sample files...''] w1) else w1"
      have "gtfsData ?w2 = gtfsData w"
        using g1 by (simp add: gtfsData_createSampleGTFSFiles say_fields)
      then have "keyedBy ''stop_id'' (stops (gtfsData (snd (loadFiles fileMapping ?w2))))"
        by (intro stops_loadFiles k) simp_all
      then show ?thesis
        using c Inr names by (simp add: loadBody_def)
    qed
  qed
  then show ?thesis
    by (simp add: snd_loadGTFSData)
qed

section \<open>The stops of a route\<close>

lemma addStop_None: "addStop acc None = acc"
  by (simp add: addStop_def)

lemma foldl_addStop_defined:
  "foldl addStop acc (filter (\<lambda>stop. stop \<noteq> None) found) = foldl addStop acc found"
  by (induction found arbitrary: acc) (simp_all add: addStop_None)

lemma tripStops_withoutDangling:
  "tripStops (withoutDangling s) trip = filter (\<lambda>stop. stop \<noteq> None) (tripStops s trip)"
proof -
  have v: "Map_values (stop_times (withoutDangling s)) =
           filter (\<lambda>stopTime. \<not> dangling s stopTime) (Map_values (stop_times s))"
    by (simp add: withoutDangling_def Map_values_def filter_map o_def)
  have st: "stops (withoutDangling s) = stops s"
    by (simp add: withoutDangling_def)
  show ?thesis
    unfolding tripStops_def v st
    by (simp add: filter_map o_def dangling_def conj_commute)
qed

lemma routeTrips_withoutDangling: "routeTrips (withoutDangling s) routeId = routeTrips s routeId"
  by (simp add: routeTrips_def withoutDangling_def)

lemma distinct_Set_add: "distinct (map oid acc) \<Longrightarrow> distinct (map oid (Set_add acc x))"
  by (simp add: Set_add_def)

lemma oids_Set_add: "oid ` set (Set_add acc x) = insert (oid x) (oid ` set acc)"
  by (auto simp: Set_add_def)

lemma set_Set_add: "set (Set_add acc x) \<subseteq> insert x (set acc)"
  by (auto simp: Set_add_def)

lemma distinct_foldl_addStop:
  "distinct (map oid acc) \<Longrightarrow> distinct (map oid (foldl addStop acc found))"
proof (induction found arbitrary: acc)
  case Nil
  then show ?case by simp
next
  case (Cons stop found)
  have "distinct (map oid (addStop acc stop))"
    using Cons.prems by (cases stop) (simp_all add: addStop_def distinct_Set_add)
  then show ?case by (simp add: Cons.IH)
qed

lemma set_foldl_addStop:
  "set (foldl addStop acc found) \<subseteq> set acc \<union> {x. Some x \<in> set found}"
proof (induction found arbitrary: acc)
  case Nil
  then show ?case by simp
next
  case (Cons stop found)
  have "set (addStop acc stop) \<subseteq> set acc \<union> {x. Some x = stop}"
    using set_Set_add by (cases stop) (auto simp: addStop_def)
  then show ?case
    using Cons.IH [of "addStop acc stop"] by auto
qed

lemma oids_foldl_addStop:
  "oid ` set (foldl addStop acc found) = oid ` set acc \<union> oid ` {x. Some x \<in> set found}"
proof (induction found arbitrary: acc)
  case Nil
  then show ?case by simp
next
  case (Cons stop found)
  have "oid ` set (addStop acc stop) = oid ` set acc \<union> oid ` {x. Some x = stop}"
    by (cases stop) (auto simp: addStop_def oids_Set_add)
  then show ?case
    using Cons.IH [of "addStop acc stop"] by auto
qed

lemma foldl_foldl_concat: "foldl (\<lambda>acc xs. foldl f acc xs) a xss = foldl f a (concat xss)"
  by (induction xss arbitrary: a) simp_all

lemma stopsForRoute_concat:
  "stopsForRoute s routeId =
     foldl addStop [] (concat (map (tripStops s) (routeTrips s routeId)))"
proof -
  have "foldl (\<lambda>acc trip. foldl addStop acc (g trip)) a ts = foldl addStop a (concat (map g ts))"
    for g :: "obj \<Rightarrow> obj option list" and a ts
    by (induction ts arbitrary: a) simp_all
  then show ?thesis by (simp add: stopsForRoute_def)
qed

lemma set_referencedStops:
  "set (referencedStops s routeId) =
     {x. Some x \<in> set (concat (map (tripStops s) (routeTrips s routeId)))}"
  by (auto simp: referencedStops_def split: option.splits)

lemma tripStops_entry:
  assumes "Some x \<in> set (tripStops s trip)"
  shows "x \<in> snd ` set (stops s)"
proof -
  obtain stopTime where "Map_get (stops s) (field stopTime ''stop_id'') = Some x"
    using assms by (auto simp: tripStops_def)
  then have "(field stopTime ''stop_id'', x) \<in> set (stops s)"
    by (simp add: Map_get_def map_of_SomeD)
  then show ?thesis
    by (rule rev_image_eqI) simp
qed

lemma referencedStops_entries: "set (referencedStops s routeId) \<subseteq> snd ` set (stops s)"
  by (auto simp: set_referencedStops dest: tripStops_entry)

lemma keyedBy_inj: "keyedBy name m \<Longrightarrow> inj_on (\<lambda>x. field x name) (snd ` set m)"
proof (rule inj_onI)
  fix x y
  assume k: "keyedBy name m" and x: "x \<in> snd ` set m" and y: "y \<in> snd ` set m"
    and e: "field x name = field y name"
  obtain kx ky where m: "(kx, x) \<in> set m" "(ky, y) \<in> set m"
    using x y by auto
  then have "kx = field x name" "ky = field y name"
    using k by (auto simp: keyedBy_def list_all_iff)
  then have "kx = ky" using e by simp
  then show "x = y"
    using k m by (auto simp: keyedBy_def dest: eq_key_imp_eq_value)
qed

lemma once_in_distinct:
  "distinct (map f xs) \<Longrightarrow> a \<in> f ` set xs \<Longrightarrow> length (filter (\<lambda>y. f y = a) xs) = 1"
proof (induction xs)
  case Nil
  then show ?case by simp
next
  case (Cons x xs)
  show ?case
  proof (cases "f x = a")
    case True
    have "f x \<notin> f ` set xs"
      using Cons.prems(1) by simp
    then have "\<forall>y \<in> set xs. f y \<noteq> a"
      using True by blast
    then have "filter (\<lambda>y. f y = a) xs = []"
      by (simp add: filter_empty_conv)
    then show ?thesis using True by simp
  next
    case False
    then have "a \<in> f ` set xs"
      using Cons.prems(2) by auto
    then show ?thesis
      using Cons.IH Cons.prems(1) False by simp
  qed
qed

lemma stopsForRoute_referenced:
  "set (stopsForRoute s routeId) \<subseteq> set (referencedStops s routeId)"
  using set_foldl_addStop [of "[]" "concat (map (tripStops s) (routeTrips s routeId))"]
  by (simp add: stopsForRoute_concat set_referencedStops)

lemma stopsForRoute_keyed:
  assumes "keyedBy ''stop_id'' (stops s)"
  shows "distinct (map (\<lambda>stop. field stop ''stop_id'') (stopsForRoute s routeId))"
    and "set (stopsForRoute s routeId) \<subseteq> set (referencedStops s routeId)"
    and "x \<in> set (referencedStops s routeId) \<Longrightarrow>
         length (filter (\<lambda>y. oid y = oid x) (stopsForRoute s routeId)) = 1"
proof -
  let ?r = "stopsForRoute s routeId"
  have d: "distinct (map oid ?r)"
    unfolding stopsForRoute_concat by (rule distinct_foldl_addStop) simp
  show sub: "set ?r \<subseteq> set (referencedStops s routeId)"
    by (rule stopsForRoute_referenced)
  have "inj_on (\<lambda>stop. field stop ''stop_id'') (set ?r)"
    using keyedBy_inj [OF assms] sub referencedStops_entries [of s routeId]
    by (blast intro: inj_on_subset)
  moreover have "distinct ?r"
    using d by (simp add: distinct_map)
  ultimately show "distinct (map (\<lambda>stop. field stop ''stop_id'') ?r)"
    by (simp add: distinct_map)
  assume "x \<in> set (referencedStops s routeId)"
  then have "oid x \<in> oid ` set ?r"
    unfolding stopsForRoute_concat set_referencedStops oids_foldl_addStop by simp
  then show "length (filter (\<lambda>y. oid y = oid x) ?r) = 1"
    using d by (rule once_in_distinct [rotated])
qed

text \<open>
  C6. A stop time whose \<open>stop_id\<close> finds no row in the Stop collection adds nothing to the
  stops of a route and raises no error: the query answers on any store as it answers on
  the store without its dangling stop times, with status 200, and every row of the
  answer is a row of the Stop collection.
\<close>

theorem dangling_stop_times_skipped:
  "stopsForRoute s routeId = stopsForRoute (withoutDangling s) routeId \<and>
   routeStopsHandler s routeId = Response 200 (Rows (stopsForRoute (withoutDangling s) routeId)) \<and>
   set (stopsForRoute s routeId) \<subseteq> set (Map_values (stops s))"
proof -
  have "stopsForRoute (withoutDangling s) routeId = stopsForRoute s routeId"
    unfolding stopsForRoute_def routeTrips_withoutDangling tripStops_withoutDangling
      foldl_addStop_defined ..
  moreover have "set (stopsForRoute s routeId) \<subseteq> set (Map_values (stops s))"
    using stopsForRoute_referenced [of s routeId] referencedStops_entries [of s routeId]
    by (auto simp: Map_values_def)
  ultimately show ?thesis
    by (simp add: routeStopsHandler_def)
qed

text \<open>On the example feed, whose trip \<open>T2\<close> refers to the missing stop \<open>S9\<close>.\<close>

lemma dangling_example:
  "Map_values (stop_times (withoutDangling exampleStore)) =
     [Obj 30 [(''trip_id'', ''T1''), (''stop_id'', ''S1''), (''stop_sequence'', ''1'')],
      Obj 31 [(''trip_id'', ''T1''), (''stop_id'', ''S2''), (''stop_sequence'', ''2'')],
      Obj 32 [(''trip_id'', ''T1''), (''stop_id'', ''S1''), (''stop_sequence'', ''3'')],
      Obj 33 [(''trip_id'', ''T2''), (''stop_id'', ''S1''), (''stop_sequence'', ''1'')],
      Obj 35 [(''trip_id'', ''T3''), (''stop_id'', ''S2''), (''stop_sequence'', ''1'')]] \<and>
   stopsForRoute exampleStore ''R1'' =
     [Obj 10 [(''stop_id'', ''S1''), (''stop_name'', ''First'')],
      Obj 11 [(''stop_id'', ''S2''), (''stop_name'', ''Second'')]]"
  by code_simp

text \<open>
  C7. When no trip has the requested \<open>route_id\<close> (compared as strings, unchanged), the
  answer is the empty array with status 200.
\<close>

theorem unknown_route_empty:
  assumes "\<forall>trip \<in> set (Map_values (trips s)). field trip ''route_id'' \<noteq> Str routeId"
  shows "routeStopsHandler s routeId = Response 200 (Rows [])"
proof -
  have "routeTrips s routeId = []"
    using assms by (simp add: routeTrips_def filter_empty_conv)
  then show ?thesis
    by (simp add: routeStopsHandler_def stopsForRoute_def)
qed

theorem unknown_route_empty_witness:
  "Map_values (trips exampleStore) =
     [Obj 20 [(''route_id'', ''R1''), (''service_id'', ''WK''), (''trip_id'', ''T1'')],
      Obj 21 [(''route_id'', ''R1''), (''service_id'', ''WK''), (''trip_id'', ''T2'')],
      Obj 22 [(''route_id'', ''R2''), (''service_id'', ''WK''), (''trip_id'', ''T3'')]] \<and>
   routeStopsHandler exampleStore ''R9'' = Response 200 (Rows [])"
proof -
  have t: "Map_values (trips exampleStore) =
     [Obj 20 [(''route_id'', ''R1''), (''service_id'', ''WK''), (''trip_id'', ''T1'')],
      Obj 21 [(''route_id'', ''R1''), (''service_id'', ''WK''), (''trip_id'', ''T2'')],
      Obj 22 [(''route_id'', ''R2''), (''service_id'', ''WK''), (''trip_id'', ''T3'')]]"
    by code_simp
  have h: "\<forall>trip \<in> set (Map_values (trips exampleStore)). field trip ''route_id'' \<noteq> Str ''R9''"
    unfolding t by (simp add: field_def)
  show ?thesis
    using unknown_route_empty [OF h] t by simp
qed

lemma single_member:
  assumes "distinct (map f xs)" and "set xs \<subseteq> {a}" and "xs \<noteq> []"
  shows "xs = [a]"
proof (cases xs)
  case Nil
  then show ?thesis using assms(3) by simp
next
  case (Cons x ys)
  have x: "x = a" using assms(2) Cons by simp
  have "ys = []"
  proof (cases ys)
    case Nil
    then show ?thesis .
  next
    case (Cons y zs)
    then have "y = a" using assms(2) \<open>xs = x # ys\<close> by simp
    then show ?thesis using assms(1) \<open>xs = x # ys\<close> Cons x by simp
  qed
  then show ?thesis using Cons x by simp
qed

text \<open>
  C1. In a store that holds a trip \<open>T1\<close> of route \<open>R1\<close>, a stop time of trip \<open>T1\<close> at stop
  \<open>S1\<close> and the stop \<open>S1\<close>, whatever else it holds, the stops of route \<open>R1\<close> are exactly
  the one row of stop \<open>S1\<close>, provided this chain is all that route \<open>R1\<close> reaches: every
  stop time of every trip of \<open>R1\<close> is at \<open>S1\<close> or dangling. Other routes, their trips and
  stop times, and other stops do not enter the answer.
\<close>

theorem join_chain:
  assumes "trip \<in> set (Map_values (trips s))"
    and "field trip ''route_id'' = Str R1" and "field trip ''trip_id'' = Str T1"
    and "stopTime \<in> set (Map_values (stop_times s))"
    and "field stopTime ''trip_id'' = Str T1" and "field stopTime ''stop_id'' = Str S1"
    and "Map_get (stops s) (Str S1) = Some stop"
    and "\<forall>t \<in> set (Map_values (trips s)). \<forall>st \<in> set (Map_values (stop_times s)).
           field t ''route_id'' = Str R1 \<longrightarrow> field st ''trip_id'' = field t ''trip_id'' \<longrightarrow>
           field st ''stop_id'' = Str S1 \<or> dangling s st"
  shows "routeStopsHandler s R1 = Response 200 (Rows [stop])"
proof -
  let ?r = "stopsForRoute s R1"
  have t: "trip \<in> set (routeTrips s R1)"
    using assms(1,2) by (simp add: routeTrips_def)
  have "Some stop \<in> set (tripStops s trip)"
    using assms(3-7) by (force simp: tripStops_def)
  then have "Some stop \<in> set (concat (map (tripStops s) (routeTrips s R1)))"
    using t by auto
  then have m: "stop \<in> set (referencedStops s R1)"
    by (simp add: set_referencedStops)
  have only: "x = stop" if "x \<in> set (referencedStops s R1)" for x
  proof -
    have "Some x \<in> set (concat (map (tripStops s) (routeTrips s R1)))"
      using that by (simp add: set_referencedStops)
    then obtain t where t: "t \<in> set (routeTrips s R1)" and x: "Some x \<in> set (tripStops s t)"
      by auto
    obtain st where st: "st \<in> set (Map_values (stop_times s))"
        "field st ''trip_id'' = field t ''trip_id''"
        "Map_get (stops s) (field st ''stop_id'') = Some x"
      using x by (auto simp: tripStops_def)
    have "t \<in> set (Map_values (trips s))" "field t ''route_id'' = Str R1"
      using t by (simp_all add: routeTrips_def)
    then have "field st ''stop_id'' = Str S1 \<or> dangling s st"
      using assms(8) st(1,2) by blast
    then show ?thesis
      using st(3) assms(7) by (auto simp: dangling_def)
  qed
  have sub: "set ?r \<subseteq> {stop}"
    using stopsForRoute_referenced [of s R1] only by blast
  have "oid stop \<in> oid ` set ?r"
    using m unfolding stopsForRoute_concat set_referencedStops oids_foldl_addStop by simp
  then have ne: "?r \<noteq> []"
    by auto
  have "distinct (map oid ?r)"
    unfolding stopsForRoute_concat by (rule distinct_foldl_addStop) simp
  then have "?r = [stop]"
    using sub ne by (rule single_member)
  then show ?thesis
    by (simp add: routeStopsHandler_def)
qed

theorem join_chain_witness:
  "Obj 22 [(''route_id'', ''R2''), (''service_id'', ''WK''), (''trip_id'', ''T3'')]
     \<in> set (Map_values (trips exampleStore)) \<and>
   Obj 35 [(''trip_id'', ''T3''), (''stop_id'', ''S2''), (''stop_sequence'', ''1'')]
     \<in> set (Map_values (stop_times exampleStore)) \<and>
   Map_get (stops exampleStore) (Str ''S2'') =
     Some (Obj 11 [(''stop_id'', ''S2''), (''stop_name'', ''Second'')]) \<and>
   length (Map_values (stops exampleStore)) = 2 \<and>
   length (Map_values (trips exampleStore)) = 3 \<and>
   routeStopsHandler exampleStore ''R2'' =
     Response 200 (Rows [Obj 11 [(''stop_id'', ''S2''), (''stop_name'', ''Second'')]])"
proof -
  let ?trip = "Obj 22 [(''route_id'', ''R2''), (''service_id'', ''WK''), (''trip_id'', ''T3'')]"
  let ?st = "Obj 35 [(''trip_id'', ''T3''), (''stop_id'', ''S2''), (''stop_sequence'', ''1'')]"
  let ?stop = "Obj 11 [(''stop_id'', ''S2''), (''stop_name'', ''Second'')]"
  have tr: "Map_values (trips exampleStore) =
     [Obj 20 [(''route_id'', ''R1''), (''service_id'', ''WK''), (''trip_id'', ''T1'')],
      Obj 21 [(''route_id'', ''R1''), (''service_id'', ''WK''), (''trip_id'', ''T2'')],
      ?trip]"
    by code_simp
  have sts: "Map_values (stop_times exampleStore) =
     [Obj 30 [(''trip_id'', ''T1''), (''stop_id'', ''S1''), (''stop_sequence'', ''1'')],
      Obj 31 [(''trip_id'', ''T1''), (''stop_id'', ''S2''), (''stop_sequence'', ''2'')],
      Obj 32 [(''trip_id'', ''T1''), (''stop_id'', ''S1''), (''stop_sequence'', ''3'')],
      Obj 33 [(''trip_id'', ''T2''), (''stop_id'', ''S1''), (''stop_sequence'', ''1'')],
      Obj 34 [(''trip_id'', ''T2''), (''stop_id'', ''S9''), (''stop_sequence'', ''2'')],
      ?st]"
    by code_simp
  have sp: "stops exampleStore =
     [(Str ''S1'', Obj 10 [(''stop_id'', ''S1''), (''stop_name'', ''First'')]), (Str ''S2'', ?stop)]"
    by code_simp
  have h1: "?trip \<in> set (Map_values (trips exampleStore))"
    unfolding tr by simp
  have h4: "?st \<in> set (Map_values (stop_times exampleStore))"
    unfolding sts by simp
  have h7: "Map_get (stops exampleStore) (Str ''S2'') = Some ?stop"
    unfolding sp by (simp add: Map_get_def)
  have h8: "\<forall>t \<in> set (Map_values (trips exampleStore)).
        \<forall>st \<in> set (Map_values (stop_times exampleStore)).
           field t ''route_id'' = Str ''R2'' \<longrightarrow> field st ''trip_id'' = field t ''trip_id'' \<longrightarrow>
           field st ''stop_id'' = Str ''S2'' \<or> dangling exampleStore st"
    unfolding tr sts by (simp add: field_def)
  have l: "length (Map_values (stops exampleStore)) = 2" "length (Map_values (trips exampleStore)) = 3"
    unfolding tr sp by (simp_all add: Map_values_def)
  show ?thesis
    using join_chain [OF h1 _ _ h4 _ _ h7 h8, of "''T3''"] h1 h4 h7 l
    by (simp add: field_def)
qed

text \<open>
  The loader builds such a store from a feed of four one-row tables with non-empty
  identifiers.
\<close>

lemma single_chain_loaded:
  assumes "directory w =
      Present [(''routes.txt'', File [route] End), (''stops.txt'', File [stop] End),
               (''trips.txt'', File [trip] End), (''stop_times.txt'', File [stopTime] End)]"
    and "gtfsData w = gtfsData0"
    and "field route ''route_id'' = Str R1"
    and "field trip ''trip_id'' = Str T1" and "T1 \<noteq> []" and "field trip ''route_id'' = Str R1"
    and "field stopTime ''trip_id'' = Str T1" and "field stopTime ''stop_id'' = Str S1"
    and "field stop ''stop_id'' = Str S1" and "S1 \<noteq> []"
  shows "routeStopsHandler (gtfsData (snd (loadGTFSData gtfsPath w))) R1 = Response 200 (Rows [stop])"
proof -
  let ?s = "gtfsData (snd (loadGTFSData gtfsPath w))"
  have b: "snd (loadBody gtfsPath w) = snd (loadFiles fileMapping w)"
    using assms(1) by (simp add: loadBody_def checkGTFSDirectory_def readdirSync_def)
  have e: "entries w = [(''routes.txt'', File [route] End), (''stops.txt'', File [stop] End),
               (''trips.txt'', File [trip] End), (''stop_times.txt'', File [stopTime] End)]"
    using assms(1) by (simp add: entries_def)
  have k: "getPrimaryKey ''stops.txt'' stop = Str S1" "getPrimaryKey ''trips.txt'' trip = Str T1"
    "getPrimaryKey ''stop_times.txt'' stopTime = Str (T1 @ ''_'' @ toString (field stopTime ''stop_sequence''))"
    using assms by (simp_all add: getPrimaryKey_def)
  have s: "stops ?s = [(Str S1, stop)]" "Map_values (trips ?s) = [trip]"
    "Map_values (stop_times ?s) = [stopTime]"
    unfolding snd_loadGTFSData b
    using assms(2,5,10) k
    by (simp_all add: fileMapping_def e entries_gtfsData_update say_fields loadRows_def onData_def
        Let_def gtfsData0_def Map_values_def)
  show ?thesis
    using assms(4,6,7,8)
    by (simp add: routeStopsHandler_def stopsForRoute_def routeTrips_def tripStops_def s
        Map_get_def addStop_def Set_add_def)
qed

lemma single_chain_loaded_example:
  "routeStopsHandler
     (gtfsData (snd (loadGTFSData ''gtfs_data''
        (worldWith (Present
           [(''routes.txt'', File [Obj 0 [(''route_id'', ''R1''), (''route_long_name'', ''Ring'')]] End),
            (''stops.txt'', File [Obj 1 [(''stop_id'', ''S1''), (''stop_name'', ''Main St'')]] End),
            (''trips.txt'', File [Obj 2 [(''route_id'', ''R1''), (''trip_id'', ''T1'')]] End),
            (''stop_times.txt'',
             File [Obj 3 [(''trip_id'', ''T1''), (''stop_id'', ''S1''), (''stop_sequence'', ''1'')]] End)])))))
     ''R1'' =
   Response 200 (Rows [Obj 1 [(''stop_id'', ''S1''), (''stop_name'', ''Main St'')]])"
  using single_chain_loaded [of
      "worldWith (Present
           [(''routes.txt'', File [Obj 0 [(''route_id'', ''R1''), (''route_long_name'', ''Ring'')]] End),
            (''stops.txt'', File [Obj 1 [(''stop_id'', ''S1''), (''stop_name'', ''Main St'')]] End),
            (''trips.txt'', File [Obj 2 [(''route_id'', ''R1''), (''trip_id'', ''T1'')]] End),
            (''stop_times.txt'',
             File [Obj 3 [(''trip_id'', ''T1''), (''stop_id'', ''S1''), (''stop_sequence'', ''1'')]] End)])"
      "Obj 0 [(''route_id'', ''R1''), (''route_long_name'', ''Ring'')]"
      "Obj 1 [(''stop_id'', ''S1''), (''stop_name'', ''Main St'')]"
      "Obj 2 [(''route_id'', ''R1''), (''trip_id'', ''T1'')]"
      "Obj 3 [(''trip_id'', ''T1''), (''stop_id'', ''S1''), (''stop_sequence'', ''1'')]"
      "''R1''" "''T1''" "''S1''" "''gtfs_data''"]
  by (simp add: worldWith_def field_def)

text \<open>
  C2. In every store that the loader builds from the empty Maps, the stops of a route
  carry pairwise different \<open>stop_id\<close>s, each of them is a stop that some stop time of
  some trip of the route refers to, and each such stop, however many stop times and
  trips refer to it, is in the answer exactly once.
\<close>

theorem route_stops_deduplicated:
  assumes "gtfsData w = gtfsData0"
  shows "distinct (map (\<lambda>stop. field stop ''stop_id'')
           (stopsForRoute (gtfsData (snd (loadGTFSData gtfsPath w))) routeId)) \<and>
         set (stopsForRoute (gtfsData (snd (loadGTFSData gtfsPath w))) routeId) \<subseteq>
           set (referencedStops (gtfsData (snd (loadGTFSData gtfsPath w))) routeId) \<and>
         (\<forall>x \<in> set (referencedStops (gtfsData (snd (loadGTFSData gtfsPath w))) routeId).
            length (filter (\<lambda>y. oid y = oid x)
              (stopsForRoute (gtfsData (snd (loadGTFSData gtfsPath w))) routeId)) = 1)"
  using stopsForRoute_keyed [OF stops_loadGTFSData [OF assms]] by blast

theorem route_stops_deduplicated_witness:
  "gtfsData (worldWith (Present exampleFeed)) = gtfsData0 \<and>
   Obj 10 [(''stop_id'', ''S1''), (''stop_name'', ''First'')] \<in>
     set (referencedStops exampleStore ''R1'') \<and>
   referencedStops exampleStore ''R1'' =
     [Obj 10 [(''stop_id'', ''S1''), (''stop_name'', ''First'')],
      Obj 11 [(''stop_id'', ''S2''), (''stop_name'', ''Second'')],
      Obj 10 [(''stop_id'', ''S1''), (''stop_name'', ''First'')],
      Obj 10 [(''stop_id'', ''S1''), (''stop_name'', ''First'')]] \<and>
   distinct (map (\<lambda>stop. field stop ''stop_id'') (stopsForRoute exampleStore ''R1'')) \<and>
   length (filter (\<lambda>y. oid y = oid (Obj 10 [(''stop_id'', ''S1''), (''stop_name'', ''First'')]))
     (stopsForRoute exampleStore ''R1'')) = 1"
proof -
  have h: "gtfsData (worldWith (Present exampleFeed)) = gtfsData0"
    by (simp add: worldWith_def)
  have r: "referencedStops exampleStore ''R1'' =
     [Obj 10 [(''stop_id'', ''S1''), (''stop_name'', ''First'')],
      Obj 11 [(''stop_id'', ''S2''), (''stop_name'', ''Second'')],
      Obj 10 [(''stop_id'', ''S1''), (''stop_name'', ''First'')],
      Obj 10 [(''stop_id'', ''S1''), (''stop_name'', ''First'')]]"
    by code_simp
  have m: "Obj 10 [(''stop_id'', ''S1''), (''stop_name'', ''First'')] \<in>
     set (referencedStops exampleStore ''R1'')"
    unfolding r by simp
  show ?thesis
    using route_stops_deduplicated [OF h, of "''gtfs_data''" "''R1''"] h r m
    unfolding exampleStore_def [symmetric] by blast
qed

section \<open>The loop over the table files\<close>

lemma loadFiles_absent:
  "map_of (entries w) fileName = None \<Longrightarrow>
   loadFiles ((fileName, d) # rest) w = loadFiles rest (say [Warn (''Missing file: '' @ fileName)] w)"
  by simp

lemma loadFiles_end:
  "map_of (entries w) fileName = Some f \<Longrightarrow> finish f = End \<Longrightarrow>
   loadFiles ((fileName, d) # rest) w =
     loadFiles rest (say [Log (''Successfully loaded '' @ fileName)]
       (w\<lparr>gtfsData := loadRows fileName d (rows f) (gtfsData w)\<rparr>))"
  by simp

lemma loadFiles_read_error:
  "map_of (entries w) fileName = Some f \<Longrightarrow> finish f = ReadError msg \<Longrightarrow>
   loadFiles ((fileName, d) # rest) w =
     failed fileName (''Error reading '' @ fileName @ '': '' @ msg)
       (w\<lparr>gtfsData := loadRows fileName d (rows f) (gtfsData w)\<rparr>)"
  by simp

lemma loadFiles_parse_error:
  "map_of (entries w) fileName = Some f \<Longrightarrow> finish f = ParseError msg \<Longrightarrow>
   loadFiles ((fileName, d) # rest) w =
     failed fileName (''Error parsing '' @ fileName @ '': '' @ msg)
       (w\<lparr>gtfsData := loadRows fileName d (rows f) (gtfsData w)\<rparr>)"
  by simp

lemma failsIn_absent: "map_of es fileName = None \<Longrightarrow> \<not> failsIn es fileName"
  by (simp add: failsIn_def)

lemma failsIn_present: "map_of es fileName = Some f \<Longrightarrow> failsIn es fileName = (finish f \<noteq> End)"
  by (simp add: failsIn_def)

lemma failed_fields:
  "fst (failed fileName message w) = Inl message"
  "gtfsData (snd (failed fileName message w)) = gtfsData w"
  "entries (snd (failed fileName message w)) = entries w"
  "console (snd (failed fileName message w)) =
     console w @ [Error (''Failed to load '' @ fileName @ '': '' @ message)]"
  by (simp_all add: failed_def say_fields)

text \<open>The cases of one turn of the loop, for proofs by induction over the mapping.\<close>

lemma loadFiles_cases [case_names absent ended read_error parse_error]:
  assumes "map_of (entries w) fileName = None \<Longrightarrow> P"
    and "\<And>f. map_of (entries w) fileName = Some f \<Longrightarrow> finish f = End \<Longrightarrow> P"
    and "\<And>f msg. map_of (entries w) fileName = Some f \<Longrightarrow> finish f = ReadError msg \<Longrightarrow> P"
    and "\<And>f msg. map_of (entries w) fileName = Some f \<Longrightarrow> finish f = ParseError msg \<Longrightarrow> P"
  shows P
proof (cases "map_of (entries w) fileName")
  case None
  then show ?thesis by (rule assms(1))
next
  case (Some f)
  then show ?thesis
    using assms(2-4) by (cases "finish f") auto
qed

lemma loadFiles_outcome:
  "(fst (loadFiles fm w) = Inr ()) = (filter (failsIn (entries w)) (map fst fm) = [])"
proof (induction fm arbitrary: w)
  case Nil
  then show ?case by simp
next
  case (Cons a fm)
  obtain fileName d where a: "a = (fileName, d)" by (cases a)
  show ?case
  proof (cases rule: loadFiles_cases [of w fileName])
    case absent
    then show ?thesis
      unfolding a loadFiles_absent [OF absent]
      using Cons.IH [of "say [Warn (''Missing file: '' @ fileName)] w"]
      by (simp add: say_fields failsIn_absent)
  next
    case (ended f)
    then show ?thesis
      unfolding a loadFiles_end [OF ended]
      using Cons.IH [of "say [Log (''Successfully loaded '' @ fileName)]
        (w\<lparr>gtfsData := loadRows fileName d (rows f) (gtfsData w)\<rparr>)"]
      by (simp add: say_fields entries_gtfsData_update failsIn_present)
  next
    case (read_error f msg)
    then show ?thesis
      unfolding a loadFiles_read_error [OF read_error]
      by (simp add: failed_fields failsIn_present)
  next
    case (parse_error f msg)
    then show ?thesis
      unfolding a loadFiles_parse_error [OF parse_error]
      by (simp add: failed_fields failsIn_present)
  qed
qed

lemma loadFiles_first_failure:
  assumes "filter (failsIn (entries w)) (map fst fm) = fileName # later"
  shows "(\<exists>f msg. map_of (entries w) fileName = Some f \<and> finish f = ReadError msg \<and>
            fst (loadFiles fm w) = Inl (''Error reading '' @ fileName @ '': '' @ msg)) \<or>
         (\<exists>f msg. map_of (entries w) fileName = Some f \<and> finish f = ParseError msg \<and>
            fst (loadFiles fm w) = Inl (''Error parsing '' @ fileName @ '': '' @ msg))"
  using assms
proof (induction fm arbitrary: w)
  case Nil
  then show ?case by simp
next
  case (Cons a fm)
  obtain n d where a: "a = (n, d)" by (cases a)
  show ?case
  proof (cases rule: loadFiles_cases [of w n])
    case absent
    let ?w = "say [Warn (''Missing file: '' @ n)] w"
    have "filter (failsIn (entries ?w)) (map fst fm) = fileName # later"
      using Cons.prems absent by (simp add: a say_fields failsIn_absent)
    from Cons.IH [OF this] show ?thesis
      unfolding a loadFiles_absent [OF absent] by (simp add: say_fields)
  next
    case (ended f)
    let ?w = "say [Log (''Successfully loaded '' @ n)]
        (w\<lparr>gtfsData := loadRows n d (rows f) (gtfsData w)\<rparr>)"
    have "filter (failsIn (entries ?w)) (map fst fm) = fileName # later"
      using Cons.prems ended by (simp add: a say_fields entries_gtfsData_update failsIn_present)
    from Cons.IH [OF this] show ?thesis
      unfolding a loadFiles_end [OF ended] by (simp add: say_fields entries_gtfsData_update)
  next
    case (read_error f msg)
    then have "fileName = n"
      using Cons.prems by (simp add: a failsIn_present)
    then show ?thesis
      unfolding a loadFiles_read_error [OF read_error]
      using read_error by (simp add: failed_fields)
  next
    case (parse_error f msg)
    then have "fileName = n"
      using Cons.prems by (simp add: a failsIn_present)
    then show ?thesis
      unfolding a loadFiles_parse_error [OF parse_error]
      using parse_error by (simp add: failed_fields)
  qed
qed

lemma loadBody_present:
  "directory w = Present es \<Longrightarrow> es \<noteq> [] \<Longrightarrow> loadBody gtfsPath w = loadFiles fileMapping w"
  by (simp add: loadBody_def checkGTFSDirectory_def readdirSync_def)

lemma fst_loadGTFSData:
  "fst (loadGTFSData gtfsPath w) =
     (case fst (loadBody gtfsPath w) of
        Inl e \<Rightarrow> Inl (''GTFS data loading failed: '' @ e) | Inr u \<Rightarrow> Inr u)"
  by (simp add: loadGTFSData_def split: prod.splits sum.splits)

lemma fst_initializeServer:
  "fst (initializeServer port gtfsPath w) =
     (case fst (loadGTFSData gtfsPath w) of Inl e \<Rightarrow> Exited 1 | Inr u \<Rightarrow> Listening)"
  by (simp add: initializeServer_def split: prod.splits sum.splits)

lemma console_initializeServer:
  "fst (loadGTFSData gtfsPath w) = Inl e \<Longrightarrow>
   Error (''Server initialization failed: '' @ e) \<in>
     set (console (snd (initializeServer port gtfsPath w)))"
  by (cases "loadGTFSData gtfsPath w") (simp add: initializeServer_def say_fields)

lemma entries_present: "directory w = Present es \<Longrightarrow> entries w = es"
  by (simp add: entries_def)

lemma entries_loadFiles: "entries (snd (loadFiles fm w)) = entries w"
proof (induction fm arbitrary: w)
  case Nil
  then show ?case by simp
next
  case (Cons a fm)
  obtain n d where a: "a = (n, d)" by (cases a)
  show ?case
  proof (cases rule: loadFiles_cases [of w n])
    case absent
    show ?thesis
      unfolding a loadFiles_absent [OF absent] by (simp add: Cons.IH say_fields)
  next
    case (ended f)
    show ?thesis
      unfolding a loadFiles_end [OF ended]
      by (simp add: Cons.IH say_fields entries_gtfsData_update)
  next
    case (read_error f msg)
    show ?thesis
      unfolding a loadFiles_read_error [OF read_error]
      by (simp add: failed_fields entries_gtfsData_update)
  next
    case (parse_error f msg)
    show ?thesis
      unfolding a loadFiles_parse_error [OF parse_error]
      by (simp add: failed_fields entries_gtfsData_update)
  qed
qed

lemma console_loadFiles: "set (console w) \<subseteq> set (console (snd (loadFiles fm w)))"
proof (induction fm arbitrary: w)
  case Nil
  then show ?case by simp
next
  case (Cons a fm)
  obtain n d where a: "a = (n, d)" by (cases a)
  show ?case
  proof (cases rule: loadFiles_cases [of w n])
    case absent
    show ?thesis
      unfolding a loadFiles_absent [OF absent]
      using Cons.IH [of "say [Warn (''Missing file: '' @ n)] w"] by (simp add: say_fields)
  next
    case (ended f)
    show ?thesis
      unfolding a loadFiles_end [OF ended]
      using Cons.IH [of "say [Log (''Successfully loaded '' @ n)]
        (w\<lparr>gtfsData := loadRows n d (rows f) (gtfsData w)\<rparr>)"]
      by (simp add: say_fields)
  next
    case (read_error f msg)
    show ?thesis
      unfolding a loadFiles_read_error [OF read_error]
      by (auto simp: failed_fields)
  next
    case (parse_error f msg)
    show ?thesis
      unfolding a loadFiles_parse_error [OF parse_error]
      by (auto simp: failed_fields)
  qed
qed

lemma warning_when_reached:
  assumes "fileName \<in> fst ` set fm" and "map_of (entries w) fileName = None"
    and "filter (failsIn (entries w)) (takeWhile (\<lambda>n. n \<noteq> fileName) (map fst fm)) = []"
  shows "Warn (''Missing file: '' @ fileName) \<in> set (console (snd (loadFiles fm w)))"
  using assms
proof (induction fm arbitrary: w)
  case Nil
  then show ?case by simp
next
  case (Cons a fm)
  obtain n d where a: "a = (n, d)" by (cases a)
  show ?case
  proof (cases "n = fileName")
    case True
    have "Warn (''Missing file: '' @ fileName) \<in> set (console (say [Warn (''Missing file: '' @ fileName)] w))"
      by (simp add: say_fields)
    then show ?thesis
      unfolding a True loadFiles_absent [OF Cons.prems(2)]
      using console_loadFiles by blast
  next
    case False
    then have m: "fileName \<in> fst ` set fm"
      using Cons.prems(1) a by auto
    have nf: "\<not> failsIn (entries w) n"
      and r: "filter (failsIn (entries w)) (takeWhile (\<lambda>n. n \<noteq> fileName) (map fst fm)) = []"
      using Cons.prems(3) False by (simp_all add: a split: if_splits)
    show ?thesis
    proof (cases rule: loadFiles_cases [of w n])
      case absent
      show ?thesis
        unfolding a loadFiles_absent [OF absent]
        using Cons.prems(2) r m by (intro Cons.IH) (simp_all add: say_fields)
    next
      case (ended f)
      show ?thesis
        unfolding a loadFiles_end [OF ended]
        using Cons.prems(2) r m
        by (intro Cons.IH) (simp_all add: say_fields entries_gtfsData_update)
    next
      case (read_error f msg)
      then show ?thesis using nf by (simp add: failsIn_present)
    next
      case (parse_error f msg)
      then show ?thesis using nf by (simp add: failsIn_present)
    qed
  qed
qed

lemma collection_untouched:
  assumes "\<forall>e \<in> set fm. snd e = d \<longrightarrow> map_of (entries w) (fst e) = None"
  shows "coll d (gtfsData (snd (loadFiles fm w))) = coll d (gtfsData w)"
  using assms
proof (induction fm arbitrary: w)
  case Nil
  then show ?case by simp
next
  case (Cons a fm)
  obtain n d' where a: "a = (n, d')" by (cases a)
  have r: "\<forall>e \<in> set fm. snd e = d \<longrightarrow> map_of (entries w) (fst e) = None"
    using Cons.prems by simp
  have o: "coll d (loadRows n d' table (gtfsData w)) = coll d (gtfsData w)"
    if "map_of (entries w) n = Some f" for f table
  proof -
    have "d \<noteq> d'" using Cons.prems that a by auto
    then show ?thesis by (rule coll_loadRows_other)
  qed
  show ?case
  proof (cases rule: loadFiles_cases [of w n])
    case absent
    have "coll d (gtfsData (snd (loadFiles fm (say [Warn (''Missing file: '' @ n)] w)))) =
          coll d (gtfsData (say [Warn (''Missing file: '' @ n)] w))"
      using r by (intro Cons.IH) (simp add: say_fields)
    then show ?thesis
      unfolding a loadFiles_absent [OF absent] by (simp add: say_fields)
  next
    case (ended f)
    let ?w = "say [Log (''Successfully loaded '' @ n)]
        (w\<lparr>gtfsData := loadRows n d' (rows f) (gtfsData w)\<rparr>)"
    have "coll d (gtfsData (snd (loadFiles fm ?w))) = coll d (gtfsData ?w)"
      using r by (intro Cons.IH) (simp add: say_fields entries_gtfsData_update)
    then show ?thesis
      unfolding a loadFiles_end [OF ended] by (simp add: say_fields o [OF ended(1)])
  next
    case (read_error f msg)
    show ?thesis
      unfolding a loadFiles_read_error [OF read_error]
      by (simp add: failed_fields o [OF read_error(1)])
  next
    case (parse_error f msg)
    show ?thesis
      unfolding a loadFiles_parse_error [OF parse_error]
      by (simp add: failed_fields o [OF parse_error(1)])
  qed
qed

lemma loadFiles_append:
  "loadFiles (fm @ fm') w =
     (case loadFiles fm w of (Inl e, w1) \<Rightarrow> (Inl e, w1) | (Inr u, w1) \<Rightarrow> loadFiles fm' w1)"
proof (induction fm arbitrary: w)
  case Nil
  then show ?case by simp
next
  case (Cons a fm)
  obtain n d where a: "a = (n, d)" by (cases a)
  show ?case
  proof (cases rule: loadFiles_cases [of w n])
    case absent
    show ?thesis
      unfolding a append_Cons loadFiles_absent [OF absent] by (rule Cons.IH)
  next
    case (ended f)
    show ?thesis
      unfolding a append_Cons loadFiles_end [OF ended] by (rule Cons.IH)
  next
    case (read_error f msg)
    show ?thesis
      unfolding a append_Cons loadFiles_read_error [OF read_error] by (simp add: failed_def)
  next
    case (parse_error f msg)
    show ?thesis
      unfolding a append_Cons loadFiles_parse_error [OF parse_error] by (simp add: failed_def)
  qed
qed

lemma loadFiles_agree:
  assumes "\<forall>n \<in> fst ` set fm. map_of (entries w) n = map_of (entries w') n"
    and "gtfsData w = gtfsData w'"
  shows "fst (loadFiles fm w) = fst (loadFiles fm w') \<and>
         gtfsData (snd (loadFiles fm w)) = gtfsData (snd (loadFiles fm w'))"
  using assms
proof (induction fm arbitrary: w w')
  case Nil
  then show ?case by simp
next
  case (Cons a fm)
  obtain n d where a: "a = (n, d)" by (cases a)
  have same: "map_of (entries w') n = map_of (entries w) n"
    using Cons.prems(1) a by simp
  have r: "\<forall>n \<in> fst ` set fm. map_of (entries w) n = map_of (entries w') n"
    using Cons.prems(1) by simp
  show ?case
  proof (cases rule: loadFiles_cases [of w n])
    case absent
    have absent': "map_of (entries w') n = None" using absent same by simp
    show ?thesis
      unfolding a loadFiles_absent [OF absent] loadFiles_absent [OF absent']
      using r Cons.prems(2) by (intro Cons.IH) (simp_all add: say_fields)
  next
    case (ended f)
    have ended': "map_of (entries w') n = Some f" using ended same by simp
    show ?thesis
      unfolding a loadFiles_end [OF ended] loadFiles_end [OF ended' ended(2)]
      using r Cons.prems(2) by (intro Cons.IH) (simp_all add: say_fields entries_gtfsData_update)
  next
    case (read_error f msg)
    have p: "map_of (entries w') n = Some f" using read_error same by simp
    show ?thesis
      unfolding a loadFiles_read_error [OF read_error] loadFiles_read_error [OF p read_error(2)]
      using Cons.prems(2) by (simp add: failed_fields)
  next
    case (parse_error f msg)
    have p: "map_of (entries w') n = Some f" using parse_error same by simp
    show ?thesis
      unfolding a loadFiles_parse_error [OF parse_error] loadFiles_parse_error [OF p parse_error(2)]
      using Cons.prems(2) by (simp add: failed_fields)
  qed
qed

lemma fileMapping_calendar_last:
  "fileMapping = butlast fileMapping @ [(''calendar.txt'', Calendar)]"
  by (simp add: fileMapping_def)

lemma loadFiles_last_other:
  assumes "d \<noteq> d'"
  shows "coll d (gtfsData (snd (loadFiles (fm @ [(n, d')]) w))) =
         coll d (gtfsData (snd (loadFiles fm w)))"
proof -
  obtain r w1 where l: "loadFiles fm w = (r, w1)"
    by (cases "loadFiles fm w")
  have "coll d (gtfsData (snd (loadFiles [(n, d')] w1))) = coll d (gtfsData w1)"
    using assms by (intro collection_untouched) simp
  then show ?thesis
    by (cases r) (simp_all add: loadFiles_append l)
qed

lemma single_target:
  "(fileName, dataKey) \<in> set fileMapping \<Longrightarrow> e \<in> set fileMapping \<Longrightarrow> snd e = dataKey \<Longrightarrow>
   fst e = fileName"
  by (auto simp: fileMapping_def)

lemma coll_loadRows_cong:
  "coll d s = coll d s' \<Longrightarrow>
   coll d (loadRows fileName d table s) = coll d (loadRows fileName d table s')"
  by (induction table arbitrary: s s') (simp_all add: loadRows_Nil loadRows_Cons coll_onData)

lemma collection_loaded:
  assumes "(n, d) \<in> set fm" and "distinct (map fst fm)" and "distinct (map snd fm)"
    and "map_of (entries w) n = Some f"
    and "filter (failsIn (entries w)) (takeWhile (\<lambda>m. m \<noteq> n) (map fst fm)) = []"
  shows "coll d (gtfsData (snd (loadFiles fm w))) = coll d (loadRows n d (rows f) (gtfsData w))"
  using assms
proof (induction fm arbitrary: w)
  case Nil
  then show ?case by simp
next
  case (Cons a fm)
  obtain n' d' where a: "a = (n', d')" by (cases a)
  show ?case
  proof (cases "n' = n")
    case True
    have dd: "d' = d"
      using Cons.prems(1,2) a True by (force simp: image_iff)
    have "d \<notin> snd ` set fm"
      using Cons.prems(3) a dd by simp
    then have u: "coll d (gtfsData (snd (loadFiles fm w'))) = coll d (gtfsData w')" for w'
      by (intro collection_untouched) auto
    let ?w1 = "w\<lparr>gtfsData := loadRows n d (rows f) (gtfsData w)\<rparr>"
    show ?thesis
    proof (cases "finish f")
      case End
      show ?thesis
        unfolding a True dd loadFiles_end [OF Cons.prems(4) End]
        by (simp add: u say_fields)
    next
      case (ReadError msg)
      show ?thesis
        unfolding a True dd loadFiles_read_error [OF Cons.prems(4) ReadError]
        by (simp add: failed_fields)
    next
      case (ParseError msg)
      show ?thesis
        unfolding a True dd loadFiles_parse_error [OF Cons.prems(4) ParseError]
        by (simp add: failed_fields)
    qed
  next
    case False
    have m: "(n, d) \<in> set fm"
      using Cons.prems(1) a False by auto
    have di: "distinct (map fst fm)" "distinct (map snd fm)"
      using Cons.prems(2,3) by simp_all
    have dd: "d \<noteq> d'"
      using Cons.prems(3) a m by force
    have nf: "\<not> failsIn (entries w) n'"
      and r: "filter (failsIn (entries w)) (takeWhile (\<lambda>m. m \<noteq> n) (map fst fm)) = []"
      using Cons.prems(5) False by (simp_all add: a split: if_splits)
    show ?thesis
    proof (cases rule: loadFiles_cases [of w n'])
      case absent
      let ?w = "say [Warn (''Missing file: '' @ n')] w"
      have "coll d (gtfsData (snd (loadFiles fm ?w))) = coll d (loadRows n d (rows f) (gtfsData ?w))"
        using m di Cons.prems(4) r by (intro Cons.IH) (simp_all add: say_fields)
      then show ?thesis
        unfolding a loadFiles_absent [OF absent] by (simp add: say_fields)
    next
      case (ended f')
      let ?w = "say [Log (''Successfully loaded '' @ n')]
        (w\<lparr>gtfsData := loadRows n' d' (rows f') (gtfsData w)\<rparr>)"
      have "coll d (gtfsData (snd (loadFiles fm ?w))) = coll d (loadRows n d (rows f) (gtfsData ?w))"
        using m di Cons.prems(4) r
        by (intro Cons.IH) (simp_all add: say_fields entries_gtfsData_update)
      moreover have "coll d (gtfsData ?w) = coll d (gtfsData w)"
        using dd by (simp add: say_fields coll_loadRows_other)
      ultimately show ?thesis
        unfolding a loadFiles_end [OF ended]
        using coll_loadRows_cong [of d "gtfsData ?w" "gtfsData w" n "rows f"] by simp
    next
      case (read_error f' msg)
      then show ?thesis using nf by (simp add: failsIn_present)
    next
      case (parse_error f' msg)
      then show ?thesis using nf by (simp add: failsIn_present)
    qed
  qed
qed

lemma fileMapping_distinct: "distinct (map fst fileMapping)" "distinct (map snd fileMapping)"
  by (simp_all add: fileMapping_def)

text \<open>
  C9. When the stream of a table file of the directory fails, at reading or at parsing,
  the load throws at the first such file in the loader's order, with a message that
  names this file; \<open>initializeServer\<close> then prints the message and ends with
  \<open>process.exit(1)\<close>, and \<open>app.listen\<close> is not called.
\<close>

theorem failing_file_aborts_startup:
  assumes "directory w = Present es"
    and "filter (failsIn es) (map fst fileMapping) = fileName # later"
  shows "((\<exists>f msg. map_of es fileName = Some f \<and> finish f = ReadError msg \<and>
             fst (loadGTFSData gtfsPath w) =
               Inl (''GTFS data loading failed: Error reading '' @ fileName @ '': '' @ msg)) \<or>
          (\<exists>f msg. map_of es fileName = Some f \<and> finish f = ParseError msg \<and>
             fst (loadGTFSData gtfsPath w) =
               Inl (''GTFS data loading failed: Error parsing '' @ fileName @ '': '' @ msg))) \<and>
         fst (initializeServer port gtfsPath w) = Exited 1 \<and>
         (\<exists>e. fst (loadGTFSData gtfsPath w) = Inl e \<and>
            Error (''Server initialization failed: '' @ e) \<in>
              set (console (snd (initializeServer port gtfsPath w))))"
proof -
  have e: "entries w = es"
    using assms(1) by (rule entries_present)
  have "failsIn es fileName"
    using assms(2) by (metis filter_eq_ConsD)
  then have "es \<noteq> []"
    by (auto simp: failsIn_def)
  then have b: "loadBody gtfsPath w = loadFiles fileMapping w"
    using assms(1) by (simp add: loadBody_present)
  have f: "filter (failsIn (entries w)) (map fst fileMapping) = fileName # later"
    using assms(2) e by simp
  from loadFiles_first_failure [OF f]
  have m: "(\<exists>f msg. map_of es fileName = Some f \<and> finish f = ReadError msg \<and>
             fst (loadGTFSData gtfsPath w) =
               Inl (''GTFS data loading failed: Error reading '' @ fileName @ '': '' @ msg)) \<or>
          (\<exists>f msg. map_of es fileName = Some f \<and> finish f = ParseError msg \<and>
             fst (loadGTFSData gtfsPath w) =
               Inl (''GTFS data loading failed: Error parsing '' @ fileName @ '': '' @ msg))"
    unfolding fst_loadGTFSData b e
    by (elim disjE exE conjE) simp_all
  then obtain e where l: "fst (loadGTFSData gtfsPath w) = Inl e"
    by auto
  have "fst (initializeServer port gtfsPath w) = Exited 1"
    by (simp add: fst_initializeServer l)
  then show ?thesis
    using m l console_initializeServer [OF l, of port] by blast
qed

theorem failing_file_aborts_startup_witness:
  "filter (failsIn
      [(''routes.txt'', File [Obj 0 [(''route_id'', ''R1'')]] End),
       (''stops.txt'', File [Obj 1 [(''stop_id'', ''S1'')]] (ParseError ''Unexpected end of input''))])
     (map fst fileMapping) = [''stops.txt''] \<and>
   fst (loadGTFSData ''gtfs_data'' (worldWith (Present
      [(''routes.txt'', File [Obj 0 [(''route_id'', ''R1'')]] End),
       (''stops.txt'', File [Obj 1 [(''stop_id'', ''S1'')]] (ParseError ''Unexpected end of input''))]))) =
     Inl ''GTFS data loading failed: Error parsing stops.txt: Unexpected end of input'' \<and>
   fst (initializeServer ''3000'' ''gtfs_data'' (worldWith (Present
      [(''routes.txt'', File [Obj 0 [(''route_id'', ''R1'')]] End),
       (''stops.txt'', File [Obj 1 [(''stop_id'', ''S1'')]] (ParseError ''Unexpected end of input''))]))) =
     Exited 1 \<and>
   Error ''Server initialization failed: GTFS data loading failed: Error parsing stops.txt: Unexpected end of input''
     \<in> set (console (snd (initializeServer ''3000'' ''gtfs_data'' (worldWith (Present
      [(''routes.txt'', File [Obj 0 [(''route_id'', ''R1'')]] End),
       (''stops.txt'', File [Obj 1 [(''stop_id'', ''S1'')]] (ParseError ''Unexpected end of input''))])))))"
proof -
  let ?es = "[(''routes.txt'', File [Obj 0 [(''route_id'', ''R1'')]] End),
       (''stops.txt'', File [Obj 1 [(''stop_id'', ''S1'')]] (ParseError ''Unexpected end of input''))]"
  have d: "directory (worldWith (Present ?es)) = Present ?es"
    by (simp add: worldWith_def)
  have f: "filter (failsIn ?es) (map fst fileMapping) = ''stops.txt'' # []"
    by (simp add: failsIn_def fileMapping_def)
  show ?thesis
    using failing_file_aborts_startup [OF d f, of "''gtfs_data''" "''3000''"] f
    by auto
qed

text \<open>
  C8. An empty directory is a counterexample to the claim as it is written: no table
  file is there, the loader writes the five sample files, finds each of them, prints no
  warning and fills every collection, the Calendar collection too; with
  \<open>calendar.txt\<close> present and nothing else, no sample is written and the Route
  collection stays empty.
\<close>

theorem seeded_directory_counterexample:
  "\<not> existsSync (worldWith (Present [])) ''calendar.txt'' \<and>
   fst (loadGTFSData ''gtfs_data'' (worldWith (Present []))) = Inr () \<and>
   Warn ''Missing file: calendar.txt'' \<notin>
     set (console (snd (loadGTFSData ''gtfs_data'' (worldWith (Present []))))) \<and>
   Map_keys (calendar (gtfsData (snd (loadGTFSData ''gtfs_data'' (worldWith (Present []))))))
     = [Str ''1''] \<and>
   Map_keys (routes (gtfsData (snd (loadGTFSData ''gtfs_data'' (worldWith (Present []))))))
     = [Str ''1''] \<and>
   Map_keys (routes (gtfsData (snd (loadGTFSData ''gtfs_data''
      (worldWith (Present [(''calendar.txt'',
         File [Obj 40 [(''service_id'', ''WK''), (''monday'', ''1'')]] End)]))))))
     = []"
  by code_simp

text \<open>
  C8, amended. In a directory that is there and has at least one entry, a table file
  that is absent gets the warning \<open>Missing file\<close> and the loop goes on with the
  remaining tables, throwing nothing for it. Its collection stays as it was (empty at
  startup); the warning is on the console when no table file before it in the loader's
  order fails; every table file that is present and that no earlier failure keeps the
  loop from reaching is loaded into its own collection, row by row; the load throws
  only when the stream of a present table file fails; and with \<open>calendar.txt\<close> absent
  the four other collections, and the answers of the routes and stops listings, are
  what they are with \<open>calendar.txt\<close> present.
\<close>

theorem missing_file_skipped:
  assumes "directory w = Present es" and "es \<noteq> []"
    and "(fileName, dataKey) \<in> set fileMapping" and "fileName \<notin> fst ` set es"
  shows "loadFiles ((fileName, dataKey) # rest) w =
           loadFiles rest (say [Warn (''Missing file: '' @ fileName)] w) \<and>
         coll dataKey (gtfsData (snd (loadGTFSData gtfsPath w))) = coll dataKey (gtfsData w) \<and>
         (filter (failsIn es) (takeWhile (\<lambda>n. n \<noteq> fileName) (map fst fileMapping)) = [] \<longrightarrow>
            Warn (''Missing file: '' @ fileName) \<in> set (console (snd (loadGTFSData gtfsPath w)))) \<and>
         ((table, key) \<in> set fileMapping \<and> map_of es table = Some f \<and>
          filter (failsIn es) (takeWhile (\<lambda>n. n \<noteq> table) (map fst fileMapping)) = [] \<longrightarrow>
            coll key (gtfsData (snd (loadGTFSData gtfsPath w))) =
              coll key (loadRows table key (rows f) (gtfsData w))) \<and>
         (fst (loadGTFSData gtfsPath w) = Inr ()) =
            (filter (failsIn es) (map fst fileMapping) = []) \<and>
         (fileName = ''calendar.txt'' \<longrightarrow>
            (\<forall>d. d \<noteq> Calendar \<longrightarrow>
               coll d (gtfsData (snd (loadGTFSData gtfsPath
                  (w\<lparr>directory := Present (es @ [(''calendar.txt'', c)])\<rparr>)))) =
               coll d (gtfsData (snd (loadGTFSData gtfsPath w)))) \<and>
            routesHandler (gtfsData (snd (loadGTFSData gtfsPath
                  (w\<lparr>directory := Present (es @ [(''calendar.txt'', c)])\<rparr>)))) =
              routesHandler (gtfsData (snd (loadGTFSData gtfsPath w))) \<and>
            stopsHandler (gtfsData (snd (loadGTFSData gtfsPath
                  (w\<lparr>directory := Present (es @ [(''calendar.txt'', c)])\<rparr>)))) =
              stopsHandler (gtfsData (snd (loadGTFSData gtfsPath w))))"
proof -
  have e: "entries w = es"
    using assms(1) by (rule entries_present)
  have b: "loadBody gtfsPath w = loadFiles fileMapping w"
    using assms(1,2) by (rule loadBody_present)
  have absent: "map_of (entries w) fileName = None"
    using assms(4) e by (simp add: map_of_eq_None_iff)
  have "\<forall>e \<in> set fileMapping. snd e = dataKey \<longrightarrow> map_of (entries w) (fst e) = None"
    using single_target [OF assms(3)] absent by blast
  then have one: "coll dataKey (gtfsData (snd (loadGTFSData gtfsPath w))) = coll dataKey (gtfsData w)"
    unfolding snd_loadGTFSData b by (rule collection_untouched)
  have m: "fileName \<in> fst ` set fileMapping"
    using assms(3) by force
  have two: "Warn (''Missing file: '' @ fileName) \<in> set (console (snd (loadGTFSData gtfsPath w)))"
    if "filter (failsIn es) (takeWhile (\<lambda>n. n \<noteq> fileName) (map fst fileMapping)) = []"
    unfolding snd_loadGTFSData b
    using m absent that e by (intro warning_when_reached) simp_all
  have three: "(fst (loadGTFSData gtfsPath w) = Inr ()) =
            (filter (failsIn es) (map fst fileMapping) = [])"
    using loadFiles_outcome [of fileMapping w]
    unfolding fst_loadGTFSData b e by (cases "fst (loadFiles fileMapping w)") simp_all
  have four: "coll d (gtfsData (snd (loadGTFSData gtfsPath
                  (w\<lparr>directory := Present (es @ [(''calendar.txt'', c)])\<rparr>)))) =
               coll d (gtfsData (snd (loadGTFSData gtfsPath w)))"
    if c: "fileName = ''calendar.txt''" and d: "d \<noteq> Calendar" for d
  proof -
    let ?w' = "w\<lparr>directory := Present (es @ [(''calendar.txt'', c)])\<rparr>"
    have b': "loadBody gtfsPath ?w' = loadFiles fileMapping ?w'"
      by (rule loadBody_present [of _ "es @ [(''calendar.txt'', c)]"]) simp_all
    have e': "entries ?w' = es @ [(''calendar.txt'', c)]"
      by (simp add: entries_def)
    have "\<forall>n \<in> fst ` set (butlast fileMapping). map_of (entries ?w') n = map_of (entries w) n"
      unfolding e e' by (auto simp: fileMapping_def map_add_def split: option.splits)
    then have "gtfsData (snd (loadFiles (butlast fileMapping) ?w')) =
               gtfsData (snd (loadFiles (butlast fileMapping) w))"
      using loadFiles_agree [of "butlast fileMapping" ?w' w] by simp
    then have "coll d (gtfsData (snd (loadFiles fileMapping ?w'))) =
               coll d (gtfsData (snd (loadFiles fileMapping w)))"
      using loadFiles_last_other [OF d, of "butlast fileMapping" "''calendar.txt''"]
        fileMapping_calendar_last by metis
    then show ?thesis
      unfolding snd_loadGTFSData b b' .
  qed
  have five: "routesHandler (gtfsData (snd (loadGTFSData gtfsPath
                  (w\<lparr>directory := Present (es @ [(''calendar.txt'', c)])\<rparr>)))) =
              routesHandler (gtfsData (snd (loadGTFSData gtfsPath w)))"
    if c: "fileName = ''calendar.txt''"
    using four [OF c, of Routes] by (simp add: routesHandler_def)
  have six: "stopsHandler (gtfsData (snd (loadGTFSData gtfsPath
                  (w\<lparr>directory := Present (es @ [(''calendar.txt'', c)])\<rparr>)))) =
              stopsHandler (gtfsData (snd (loadGTFSData gtfsPath w)))"
    if c: "fileName = ''calendar.txt''"
    using four [OF c, of Stops] by (simp add: stopsHandler_def)
  have seven: "loadFiles ((fileName, dataKey) # rest) w =
           loadFiles rest (say [Warn (''Missing file: '' @ fileName)] w)"
    using absent by (rule loadFiles_absent)
  have eight: "coll key (gtfsData (snd (loadGTFSData gtfsPath w))) =
              coll key (loadRows table key (rows f) (gtfsData w))"
    if "(table, key) \<in> set fileMapping" and "map_of es table = Some f"
      and "filter (failsIn es) (takeWhile (\<lambda>n. n \<noteq> table) (map fst fileMapping)) = []"
    unfolding snd_loadGTFSData b
    using that e by (intro collection_loaded fileMapping_distinct) simp_all
  show ?thesis
    using one two three four five six seven eight by blast
qed

theorem missing_file_skipped_witness:
  "''calendar.txt'' \<notin> fst ` set exampleFeed \<and>
   calendar exampleStore = [] \<and>
   Warn ''Missing file: calendar.txt'' \<in>
     set (console (snd (loadGTFSData ''gtfs_data'' (worldWith (Present exampleFeed))))) \<and>
   fst (loadGTFSData ''gtfs_data'' (worldWith (Present exampleFeed))) = Inr () \<and>
   routesHandler (gtfsData (snd (loadGTFSData ''gtfs_data''
      (worldWith (Present (exampleFeed @
         [(''calendar.txt'', File [Obj 40 [(''service_id'', ''WK''), (''monday'', ''1'')]] End)])))))) =
     routesHandler exampleStore \<and>
   stopsHandler (gtfsData (snd (loadGTFSData ''gtfs_data''
      (worldWith (Present (exampleFeed @
         [(''calendar.txt'', File [Obj 40 [(''service_id'', ''WK''), (''monday'', ''1'')]] End)])))))) =
     stopsHandler exampleStore \<and>
   ''routes.txt'' \<notin> fst ` set [(''stops.txt'', File [Obj 1 [(''stop_id'', ''S1'')]] End)] \<and>
   Warn ''Missing file: routes.txt'' \<in>
     set (console (snd (loadGTFSData ''gtfs_data''
       (worldWith (Present [(''stops.txt'', File [Obj 1 [(''stop_id'', ''S1'')]] End)]))))) \<and>
   routes (gtfsData (snd (loadGTFSData ''gtfs_data''
       (worldWith (Present [(''stops.txt'', File [Obj 1 [(''stop_id'', ''S1'')]] End)]))))) = [] \<and>
   stops (gtfsData (snd (loadGTFSData ''gtfs_data''
       (worldWith (Present [(''stops.txt'', File [Obj 1 [(''stop_id'', ''S1'')]] End)]))))) =
     [(Str ''S1'', Obj 1 [(''stop_id'', ''S1'')])]"
proof -
  let ?w = "worldWith (Present exampleFeed)"
  let ?c = "File [Obj 40 [(''service_id'', ''WK''), (''monday'', ''1'')]] End"
  have d: "directory ?w = Present exampleFeed"
    by (simp add: worldWith_def)
  have ne: "exampleFeed \<noteq> []"
    by (simp add: exampleFeed_def)
  have m: "(''calendar.txt'', Calendar) \<in> set fileMapping"
    by (simp add: fileMapping_def)
  have a: "''calendar.txt'' \<notin> fst ` set exampleFeed"
    by (simp add: exampleFeed_def)
  have r: "filter (failsIn exampleFeed)
             (takeWhile (\<lambda>n. n \<noteq> ''calendar.txt'') (map fst fileMapping)) = []"
    by (simp add: failsIn_def exampleFeed_def fileMapping_def)
  have n: "filter (failsIn exampleFeed) (map fst fileMapping) = []"
    by (simp add: failsIn_def exampleFeed_def fileMapping_def)
  have u: "?w\<lparr>directory := Present (exampleFeed @ [(''calendar.txt'', ?c)])\<rparr> =
           worldWith (Present (exampleFeed @ [(''calendar.txt'', ?c)]))"
    by (simp add: worldWith_def)
  have z: "coll Calendar (gtfsData ?w) = []"
    by (simp add: worldWith_def gtfsData0_def)
  have first: "calendar exampleStore = [] \<and>
     Warn ''Missing file: calendar.txt'' \<in> set (console (snd (loadGTFSData ''gtfs_data'' ?w))) \<and>
     fst (loadGTFSData ''gtfs_data'' ?w) = Inr () \<and>
     routesHandler (gtfsData (snd (loadGTFSData ''gtfs_data''
        (worldWith (Present (exampleFeed @ [(''calendar.txt'', ?c)])))))) = routesHandler exampleStore \<and>
     stopsHandler (gtfsData (snd (loadGTFSData ''gtfs_data''
        (worldWith (Present (exampleFeed @ [(''calendar.txt'', ?c)])))))) = stopsHandler exampleStore"
    using missing_file_skipped [OF d ne m a, of _ "''gtfs_data''" _ _ _ ?c] a r n
    unfolding u z exampleStore_def [symmetric] by simp
  let ?es = "[(''stops.txt'', File [Obj 1 [(''stop_id'', ''S1'')]] End)]"
  let ?v = "worldWith (Present ?es)"
  have d2: "directory ?v = Present ?es"
    by (simp add: worldWith_def)
  have ne2: "?es \<noteq> []"
    by simp
  have m2: "(''routes.txt'', Routes) \<in> set fileMapping"
    by (simp add: fileMapping_def)
  have a2: "''routes.txt'' \<notin> fst ` set ?es"
    by simp
  have r2: "filter (failsIn ?es) (takeWhile (\<lambda>n. n \<noteq> ''routes.txt'') (map fst fileMapping)) = []"
    by (simp add: fileMapping_def)
  have t2: "(''stops.txt'', Stops) \<in> set fileMapping \<and>
      map_of ?es ''stops.txt'' = Some (File [Obj 1 [(''stop_id'', ''S1'')]] End) \<and>
      filter (failsIn ?es) (takeWhile (\<lambda>n. n \<noteq> ''stops.txt'') (map fst fileMapping)) = []"
    by (simp add: fileMapping_def failsIn_def)
  have z2: "gtfsData ?v = gtfsData0"
    by (simp add: worldWith_def)
  have second: "Warn ''Missing file: routes.txt'' \<in> set (console (snd (loadGTFSData ''gtfs_data'' ?v))) \<and>
     routes (gtfsData (snd (loadGTFSData ''gtfs_data'' ?v))) = [] \<and>
     stops (gtfsData (snd (loadGTFSData ''gtfs_data'' ?v))) = [(Str ''S1'', Obj 1 [(''stop_id'', ''S1'')])]"
    using missing_file_skipped [OF d2 ne2 m2 a2, of _ "''gtfs_data''" "''stops.txt''" Stops
        "File [Obj 1 [(''stop_id'', ''S1'')]] End"] r2 t2
    unfolding z2
    by (simp add: gtfsData0_def loadRows_def onData_def getPrimaryKey_def field_def)
  show ?thesis
    using first second a a2 by blast
qed

end
